theory Spec2Isabelle
  imports Complex_Main "HOL-Library.Multiset"
begin

section \<open>Data model\<close>

text \<open>
  A cell of the ingested table is what \<^verbatim>\<open>try_number\<close> of parser.py leaves in a record:
  a number (int or float, idealised as a real), a text that is not a numeral, or
  \<^verbatim>\<open>None\<close>. A float NaN cell behaves as \<^verbatim>\<open>None\<close> in every pandas operation used
  here, so \<open>Missing\<close> stands for both. \<open>Flag\<close> is the boolean of the derived
  \<^verbatim>\<open>Is_Pareto\<close> column.
\<close>

datatype cell = Num real | Str string | Missing | Flag bool

text \<open>
  A row maps column names to cells; a DataFrame is its ordered column names and its
  rows in positional order. The index labels of pandas are the positions of the
  rows in the ingested table and are unique, so label-based access
  (\<^verbatim>\<open>.loc\<close>, \<^verbatim>\<open>idxmax\<close>) is modelled by position.
\<close>

type_synonym row = "string \<Rightarrow> cell"

record dataframe =
  columns :: "string list"
  rows :: "row list"

datatype error = AttributeError | KeyError | ValueError | IndexError

text \<open>Sequencing of steps that may raise: the first exception ends the computation.\<close>

definition then_do :: "error + 'a \<Rightarrow> ('a \<Rightarrow> error + 'b) \<Rightarrow> error + 'b" where
  "then_do m f = (case m of Inl e \<Rightarrow> Inl e | Inr x \<Rightarrow> f x)"

text \<open>
  The result of \<^verbatim>\<open>df.get(col, 0)\<close>: the column as a Series when it exists, the
  scalar default otherwise.
\<close>

datatype pdvalue = Series "cell list" | Scalar cell

definition df_get :: "dataframe \<Rightarrow> string \<Rightarrow> cell \<Rightarrow> pdvalue" where
  "df_get df col dflt =
     (if col \<in> set (columns df) then Series (map (\<lambda>r. r col) (rows df)) else Scalar dflt)"

text \<open>
  \<^verbatim>\<open>pd.to_numeric(x, errors="coerce")\<close> on one cell: a number stays, a boolean
  becomes 0 or 1, everything else becomes NaN (\<open>None\<close>).
\<close>

fun coerce :: "cell \<Rightarrow> real option" where
  "coerce (Num x) = Some x"
| "coerce (Flag b) = Some (if b then 1 else 0)"
| "coerce (Str s) = None"
| "coerce Missing = None"

text \<open>
  \<^verbatim>\<open>pd.to_numeric\<close> maps a Series to a numeric Series and hands a scalar number back
  as the same scalar.
\<close>

datatype numeric = NumSeries "real option list" | NumScalar "real option"

fun to_numeric :: "pdvalue \<Rightarrow> numeric" where
  "to_numeric (Series cs) = NumSeries (map coerce cs)"
| "to_numeric (Scalar c) = NumScalar (coerce c)"

text \<open>
  \<^verbatim>\<open>.fillna(v)\<close> is a method of Series; a scalar number has no such attribute, so
  the call raises \<^verbatim>\<open>AttributeError\<close>.
\<close>

definition fillna_series :: "real option list \<Rightarrow> real \<Rightarrow> real list" where
  "fillna_series s v = map (\<lambda>x. case x of None \<Rightarrow> v | Some y \<Rightarrow> y) s"

fun fillna :: "numeric \<Rightarrow> real \<Rightarrow> error + real list" where
  "fillna (NumSeries s) v = Inr (fillna_series s v)"
| "fillna (NumScalar x) v = Inl AttributeError"

text \<open>
  The idiom \<^verbatim>\<open>pd.to_numeric(df.get(col, 0), errors="coerce").fillna(0)\<close> of
  \<^verbatim>\<open>compute_pareto\<close>, \<^verbatim>\<open>build_suggestion_cards\<close> and \<^verbatim>\<open>generate_report\<close>.
\<close>

definition objective :: "dataframe \<Rightarrow> string \<Rightarrow> error + real list" where
  "objective df col = fillna (to_numeric (df_get df col (Num 0))) 0"

section \<open>Pareto classifier\<close>

text \<open>
  The condition of the inner loop of \<^verbatim>\<open>compute_pareto\<close>: row j, with objectives
  \<open>(p_j, s_j, d_j)\<close>, dominates row i.
\<close>

fun dominates :: "real \<times> real \<times> real \<Rightarrow> real \<times> real \<times> real \<Rightarrow> bool" where
  "dominates (p_j, s_j, d_j) (p_i, s_i, d_i) =
     (p_j \<ge> p_i \<and> s_j \<ge> s_i \<and> d_j \<le> d_i \<and> (p_j > p_i \<or> s_j > s_i \<or> d_j < d_i))"

text \<open>
  The inner loop \<^verbatim>\<open>for j in range(n)\<close> for a fixed i, over the remaining indices
  \<open>js\<close>: the value of \<^verbatim>\<open>is_pareto[i]\<close> when the loop ends or breaks.
\<close>

fun scan_row :: "(real \<times> real \<times> real) list \<Rightarrow> nat \<Rightarrow> nat list \<Rightarrow> bool" where
  "scan_row obj i [] = True"
| "scan_row obj i (j # js) =
     (if i = j then scan_row obj i js
      else if dominates (obj ! j) (obj ! i) then False
      else scan_row obj i js)"

text \<open>
  The outer loop. Every flag starts true and flag i is only written in iteration
  i, so the test \<^verbatim>\<open>if not is_pareto[i]: continue\<close> never fires.
\<close>

definition pareto_flags :: "(real \<times> real \<times> real) list \<Rightarrow> bool list" where
  "pareto_flags obj = map (\<lambda>i. scan_row obj i [0..<length obj]) [0..<length obj]"

definition compute_pareto :: "dataframe \<Rightarrow> error + bool list" where
  "compute_pareto df =
     (if length (rows df) = 0 then Inr []
      else then_do (objective df ''Profit'') (\<lambda>profit.
           then_do (objective df ''Sharpe Ratio'') (\<lambda>sharpe.
           then_do (objective df ''Equity DD %'') (\<lambda>dd.
             Inr (pareto_flags (zip profit (zip sharpe dd)))))))"

section \<open>Metric tables\<close>

text \<open>
  \<^verbatim>\<open>METRIC_DEF\<close> and \<^verbatim>\<open>DEFAULT_WEIGHTS\<close>, in the insertion order of the Python
  dictionaries: key, source column, derived column (the display label is left
  out).
\<close>

definition METRIC_DEF :: "(string \<times> string \<times> string) list" where
  "METRIC_DEF =
     [(''profit'', ''Profit'', ''z_profit''),
      (''drawdown'', ''Equity DD %'', ''z_drawdown''),
      (''sharpe_ratio'', ''Sharpe Ratio'', ''z_sharpe_ratio''),
      (''profit_factor'', ''Profit Factor'', ''z_profit_factor''),
      (''recovery_factor'', ''Recovery Factor'', ''z_recovery_factor''),
      (''expected_payoff'', ''Expected Payoff'', ''z_expected_payoff'')]"

definition DEFAULT_WEIGHTS :: "(string \<times> real) list" where
  "DEFAULT_WEIGHTS =
     [(''profit'', 30 / 100),
      (''drawdown'', - (25 / 100)),
      (''sharpe_ratio'', 20 / 100),
      (''profit_factor'', 10 / 100),
      (''recovery_factor'', 10 / 100),
      (''expected_payoff'', 5 / 100)]"

section \<open>Normalizer\<close>

text \<open>The non-missing values of a numeric Series, in order.\<close>

fun dropna :: "real option list \<Rightarrow> real list" where
  "dropna [] = []"
| "dropna (None # xs) = dropna xs"
| "dropna (Some x # xs) = x # dropna xs"

text \<open>
  The statistics of a column and the order of a sort are computed by pandas and
  NumPy, in binary64 arithmetic and with a sort that leaves the order of equal
  keys open. They are parameters of the model. \<open>mean_of\<close> and \<open>std_of\<close> stand for
  \<^verbatim>\<open>Series.mean()\<close> and \<^verbatim>\<open>Series.std()\<close> on a numeric Series, \<open>None\<close> being NaN;
  \<open>argsort_desc\<close> gives, for the keys of a column, the positions of the rows in the
  order in which \<^verbatim>\<open>sort_values(ascending=False)\<close> puts them.
\<close>

record pandas =
  mean_of :: "real option list \<Rightarrow> real option"
  std_of :: "real option list \<Rightarrow> real option"
  argsort_desc :: "real option list \<Rightarrow> nat list"

text \<open>
  Float division. A zero divisor gives an infinity or NaN, neither of which is a
  real number: \<open>None\<close>.
\<close>

definition fdiv :: "real \<Rightarrow> real \<Rightarrow> real option" where
  "fdiv x y = (if y = 0 then None else Some (x / y))"

definition zscore :: "pandas \<Rightarrow> cell list \<Rightarrow> real option list" where
  "zscore pd series =
     (let s = map coerce series
      in case std_of pd s of
           None \<Rightarrow> replicate (length s) (Some 0)
         | Some sd \<Rightarrow>
             if sd = 0 then replicate (length s) (Some 0)
             else map (\<lambda>x. case (x, mean_of pd s) of
                              (Some v, Some m) \<Rightarrow> fdiv (v - m) sd
                            | _ \<Rightarrow> None) s)"

text \<open>A float or NaN stored in a cell of a derived column.\<close>

fun float_cell :: "real option \<Rightarrow> cell" where
  "float_cell None = Missing"
| "float_cell (Some x) = Num x"

text \<open>
  \<^verbatim>\<open>df[name] = values\<close>: an existing column is overwritten in place, a new one is
  appended to the columns.
\<close>

definition setitem :: "dataframe \<Rightarrow> string \<Rightarrow> cell list \<Rightarrow> dataframe" where
  "setitem df name vals =
     \<lparr>columns = (if name \<in> set (columns df) then columns df else columns df @ [name]),
      rows = map (\<lambda>(r, v). r(name := v)) (zip (rows df) vals)\<rparr>"

definition getitem :: "dataframe \<Rightarrow> string \<Rightarrow> cell list" where
  "getitem df col = map (\<lambda>r. r col) (rows df)"

text \<open>One iteration of the loop of \<^verbatim>\<open>add_z_scores\<close>, and the loop.\<close>

fun add_z_score :: "pandas \<Rightarrow> dataframe \<Rightarrow> string \<times> string \<times> string \<Rightarrow> dataframe" where
  "add_z_score pd df (key, col, zcol) =
     (if col \<in> set (columns df) then setitem df zcol (map float_cell (zscore pd (getitem df col)))
      else df)"

definition add_z_scores :: "pandas \<Rightarrow> dataframe \<Rightarrow> dataframe" where
  "add_z_scores pd df = foldl (add_z_score pd) df METRIC_DEF"

section \<open>Scorer\<close>

text \<open>
  Float addition and multiplication with NaN, which propagates. Finite floats are
  idealised as reals.
\<close>

fun fadd :: "real option \<Rightarrow> real option \<Rightarrow> real option" where
  "fadd (Some a) (Some b) = Some (a + b)"
| "fadd _ _ = None"

fun fmul :: "real \<Rightarrow> real option \<Rightarrow> real option" where
  "fmul w (Some z) = Some (w * z)"
| "fmul w None = None"

text \<open>
  One iteration of the loop of \<^verbatim>\<open>compute_default_score\<close> for one row: \<open>cols\<close> are
  the columns of the table, \<open>score\<close> the row's entry of the running Series. The
  derived columns hold floats and NaN. Every key of \<^verbatim>\<open>DEFAULT_WEIGHTS\<close> is a key of
  \<^verbatim>\<open>METRIC_DEF\<close>, so the lookup finds it.
\<close>

fun score_step :: "string list \<Rightarrow> row \<Rightarrow> real option \<Rightarrow> string \<times> real \<Rightarrow> real option" where
  "score_step cols r score (key, weight) =
     (case map_of METRIC_DEF key of
        None \<Rightarrow> score
      | Some (col, zcol) \<Rightarrow>
          if zcol \<in> set cols then fadd score (fmul weight (coerce (r zcol))) else score)"

definition default_score :: "string list \<Rightarrow> row \<Rightarrow> real option" where
  "default_score cols r = foldl (score_step cols r) (Some 0) DEFAULT_WEIGHTS"

definition compute_default_score :: "dataframe \<Rightarrow> dataframe" where
  "compute_default_score df =
     setitem df ''Score_Weighted'' (map (\<lambda>r. float_cell (default_score (columns df) r)) (rows df))"

section \<open>Recomputation in the report\<close>

text \<open>
  \<^verbatim>\<open>metricsConfig\<close> as \<^verbatim>\<open>generate_report\<close> builds it: the metrics whose source and
  derived columns both exist, in the order of \<^verbatim>\<open>METRIC_DEF\<close>.
\<close>

definition metrics_config :: "dataframe \<Rightarrow> (string \<times> string \<times> string) list" where
  "metrics_config df =
     filter (\<lambda>(key, col, zcol). col \<in> set (columns df) \<and> zcol \<in> set (columns df)) METRIC_DEF"

text \<open>
  The weight inputs after \<^verbatim>\<open>initWeightInputs\<close>, read back by the first loop of
  \<^verbatim>\<open>recomputeScores\<close>: the given weight for a configured metric, 0 for the others.
\<close>

definition input_weights ::
  "(string \<times> string \<times> string) list \<Rightarrow> (string \<times> real) list \<Rightarrow> (string \<times> real) list" where
  "input_weights config weights =
     map (\<lambda>(key, val). (key, if key \<in> set (map fst config) then val else 0)) weights"

text \<open>
  The body of \<^verbatim>\<open>rawData.forEach\<close> in \<^verbatim>\<open>recomputeScores\<close>: \<^verbatim>\<open>Number(row[zcol])\<close> of a
  JSON number is the number, of \<^verbatim>\<open>NaN\<close> is NaN, and a NaN term is skipped.
\<close>

fun recompute_step :: "(string \<times> real) list \<Rightarrow> row \<Rightarrow> real \<Rightarrow> string \<times> string \<times> string \<Rightarrow> real" where
  "recompute_step weights r s (key, col, zcol) =
     (let w = (case map_of weights key of None \<Rightarrow> 0 | Some v \<Rightarrow> v)
      in case coerce (r zcol) of
           None \<Rightarrow> s
         | Some z \<Rightarrow> s + w * z)"

definition recomputeScores ::
  "(string \<times> string \<times> string) list \<Rightarrow> (string \<times> real) list \<Rightarrow> row list \<Rightarrow> real list" where
  "recomputeScores config weights rawData =
     map (\<lambda>r. foldl (recompute_step (input_weights config weights) r) 0 config) rawData"

section \<open>Step formatting\<close>

text \<open>
  \<^verbatim>\<open>round(value, digits)\<close>: the decimal with \<open>digits\<close> places nearest to the value,
  a tie going to the even last digit.
\<close>

definition round_half_even :: "real \<Rightarrow> int" where
  "round_half_even x =
     (let f = \<lfloor>x\<rfloor>; d = x - of_int f
      in if d < 1 / 2 then f
         else if d > 1 / 2 then f + 1
         else if even f then f else f + 1)"

definition py_round :: "real \<Rightarrow> nat \<Rightarrow> real" where
  "py_round value digits = of_int (round_half_even (value * 10 ^ digits)) / 10 ^ digits"

fun format_step_loop :: "real \<Rightarrow> nat list \<Rightarrow> real" where
  "format_step_loop value [] = py_round value 6"
| "format_step_loop value (digits # rest) =
     (let v = py_round value digits
      in if \<bar>v - value\<bar> < 1 / 10 ^ 10 then v else format_step_loop value rest)"

fun format_step :: "real option \<Rightarrow> real option" where
  "format_step None = None"
| "format_step (Some value) = Some (format_step_loop value [0..<9])"

section \<open>Recommendation engine\<close>

text \<open>\<^verbatim>\<open>col[3:] if col.startswith("inp") else col\<close>\<close>

definition strip_inp :: "string \<Rightarrow> string" where
  "strip_inp col = (if take 3 col = ''inp'' then drop 3 col else col)"

text \<open>
  \<^verbatim>\<open>pretty_param_str\<close>: the pairs that are printed as \<^verbatim>\<open>key=val\<close>. \<open>cols\<close> is the
  index of the row Series, the columns of its table; \<^verbatim>\<open>row[col]\<close> raises
  \<^verbatim>\<open>KeyError\<close> for a name outside it.
\<close>

definition pretty_param_str :: "string list \<Rightarrow> row \<Rightarrow> string list \<Rightarrow> error + (string \<times> cell) list" where
  "pretty_param_str cols r param_cols =
     (if \<forall>col \<in> set param_cols. col \<in> set cols
      then Inr (map (\<lambda>col. (strip_inp col, r col)) param_cols)
      else Inl KeyError)"

text \<open>\<^verbatim>\<open>row.get(col, 'N/A')\<close>, with \<open>None\<close> for the default.\<close>

definition row_get :: "string list \<Rightarrow> row \<Rightarrow> string \<Rightarrow> cell option" where
  "row_get cols r col = (if col \<in> set cols then Some (r col) else None)"

text \<open>
  What a card of kinds 1 to 3 prints of its chosen row: the parameters, and the
  profit, Sharpe ratio and drawdown cells.
\<close>

record pick =
  params :: "(string \<times> cell) list"
  profit_shown :: "cell option"
  sharpe_shown :: "cell option"
  drawdown_shown :: "cell option"

definition describe_row :: "string list \<Rightarrow> row \<Rightarrow> string list \<Rightarrow> error + pick" where
  "describe_row cols r param_cols =
     then_do (pretty_param_str cols r param_cols) (\<lambda>ps.
       Inr \<lparr>params = ps,
            profit_shown = row_get cols r ''Profit'',
            sharpe_shown = row_get cols r ''Sharpe Ratio'',
            drawdown_shown = row_get cols r ''Equity DD %''\<rparr>)"

text \<open>
  The body of the fourth card: the lines \<^verbatim>\<open>name: q1 - q3\<close>, or the fallback
  message. The cards carry their data; titles and HTML text are left out.
\<close>

datatype range_body = Ranges "(string \<times> real \<times> real) list" | NoStableRange

datatype card =
    NoData
  | Aggressive pick
  | Balanced pick
  | Conservative pick
  | StableRange range_body

text \<open>
  \<^verbatim>\<open>idxmax\<close> and \<^verbatim>\<open>idxmin\<close> over rows paired with their values: the first row
  holding the extreme value. On no rows they raise \<^verbatim>\<open>ValueError\<close>.
\<close>

fun first_best :: "(real \<Rightarrow> real \<Rightarrow> bool) \<Rightarrow> row \<times> real \<Rightarrow> (row \<times> real) list \<Rightarrow> row" where
  "first_best better cur [] = fst cur"
| "first_best better cur (x # xs) =
     first_best better (if better (snd x) (snd cur) then x else cur) xs"

definition idxmax :: "(row \<times> real) list \<Rightarrow> error + row" where
  "idxmax xs = (case xs of [] \<Rightarrow> Inl ValueError | x # rest \<Rightarrow> Inr (first_best (>) x rest))"

definition idxmin :: "(row \<times> real) list \<Rightarrow> error + row" where
  "idxmin xs = (case xs of [] \<Rightarrow> Inl ValueError | x # rest \<Rightarrow> Inr (first_best (<) x rest))"

text \<open>
  \<^verbatim>\<open>df.sort_values(col, ascending=False)\<close>: the rows taken in the order that the
  library gives for the keys of the column.
\<close>

definition sorted_rows :: "pandas \<Rightarrow> dataframe \<Rightarrow> string \<Rightarrow> row list" where
  "sorted_rows pd df col =
     map (\<lambda>i. rows df ! i) (argsort_desc pd (map (\<lambda>r. coerce (r col)) (rows df)))"

definition sort_values_desc :: "pandas \<Rightarrow> dataframe \<Rightarrow> string \<Rightarrow> error + dataframe" where
  "sort_values_desc pd df col =
     (if col \<in> set (columns df)
      then Inr (df\<lparr>rows := sorted_rows pd df col\<rparr>)
      else Inl KeyError)"

text \<open>\<^verbatim>\<open>df.head(n)\<close>\<close>

definition head :: "dataframe \<Rightarrow> nat \<Rightarrow> dataframe" where
  "head df n = df\<lparr>rows := take n (rows df)\<rparr>"

text \<open>
  \<^verbatim>\<open>Series.quantile(q)\<close> of a Series without NaN, by linear interpolation between
  the two nearest order statistics.
\<close>

definition quantile :: "real list \<Rightarrow> real \<Rightarrow> real" where
  "quantile vals q =
     (let xs = sort vals;
          h = real (length xs - 1) * q;
          lo = nat \<lfloor>h\<rfloor>;
          hi = min (lo + 1) (length xs - 1)
      in xs ! lo + (xs ! hi - xs ! lo) * (h - real lo))"

text \<open>
  The loop over \<^verbatim>\<open>param_cols\<close> of the fourth card; \<^verbatim>\<open>top_df[p]\<close> raises
  \<^verbatim>\<open>KeyError\<close> for a name that is no column.
\<close>

fun range_lines :: "dataframe \<Rightarrow> string list \<Rightarrow> error + (string \<times> real \<times> real) list" where
  "range_lines top_df [] = Inr []"
| "range_lines top_df (p # ps) =
     (if p \<notin> set (columns top_df) then Inl KeyError
      else (let vals = dropna (map coerce (getitem top_df p))
            in if length vals = 0 then range_lines top_df ps
               else then_do (range_lines top_df ps) (\<lambda>rest.
                      Inr ((strip_inp p, quantile vals (25 / 100), quantile vals (75 / 100)) # rest))))"

text \<open>
  \<^verbatim>\<open>df[mask] if mask.any() else df\<close>, on rows paired with the value that the card
  ranks them by.
\<close>

definition restrict :: "(row \<times> real) list \<Rightarrow> bool list \<Rightarrow> (row \<times> real) list" where
  "restrict cand keep =
     (if True \<in> set keep then map fst (filter snd (zip cand keep)) else cand)"

text \<open>Card 1: the first row of largest profit among those with at least 10 trades.\<close>

definition aggressive_card ::
  "dataframe \<Rightarrow> string list \<Rightarrow> real list \<Rightarrow> real list \<Rightarrow> error + card" where
  "aggressive_card df param_cols profit trades =
     (let mask_aggr = map (\<lambda>t. t \<ge> 10) trades;
          df_aggr = restrict (zip (rows df) profit) mask_aggr
      in then_do (idxmax df_aggr) (\<lambda>row_aggr.
         then_do (describe_row (columns df) row_aggr param_cols) (\<lambda>shown.
           Inr (Aggressive shown))))"

text \<open>Card 2: the first row of the table sorted by descending score.\<close>

definition balanced_card :: "pandas \<Rightarrow> dataframe \<Rightarrow> string list \<Rightarrow> error + card" where
  "balanced_card pd df param_cols =
     then_do (sort_values_desc pd df ''Score_Weighted'') (\<lambda>sorted.
     then_do (case rows sorted of [] \<Rightarrow> Inl IndexError | r # _ \<Rightarrow> Inr r) (\<lambda>row_bal.
     then_do (describe_row (columns df) row_bal param_cols) (\<lambda>shown.
       Inr (Balanced shown))))"

text \<open>
  Card 3: the first row of smallest drawdown among those with positive profit and
  Sharpe ratio.
\<close>

definition conservative_card ::
  "dataframe \<Rightarrow> string list \<Rightarrow> real list \<Rightarrow> real list \<Rightarrow> real list \<Rightarrow> error + card" where
  "conservative_card df param_cols profit sharpe dd =
     (let mask_cons = map (\<lambda>(p, s). p > 0 \<and> s > 0) (zip profit sharpe);
          df_cons = restrict (zip (rows df) dd) mask_cons
      in then_do (idxmin df_cons) (\<lambda>row_cons.
         then_do (describe_row (columns df) row_cons param_cols) (\<lambda>shown.
           Inr (Conservative shown))))"

text \<open>Card 4: the quartiles of each parameter over the rows of highest score.\<close>

definition stable_range_card :: "pandas \<Rightarrow> dataframe \<Rightarrow> string list \<Rightarrow> error + card" where
  "stable_range_card pd df param_cols =
     (let top_n = max 10 (length (rows df) div 5)
      in then_do (sort_values_desc pd df ''Score_Weighted'') (\<lambda>sorted.
         then_do (range_lines (head sorted top_n) param_cols) (\<lambda>lines.
           Inr (StableRange (if lines \<noteq> [] then Ranges lines else NoStableRange)))))"

definition build_suggestion_cards :: "pandas \<Rightarrow> dataframe \<Rightarrow> string list \<Rightarrow> error + card list" where
  "build_suggestion_cards pd df param_cols =
     (if length (rows df) = 0 then Inr [NoData]
      else
        then_do (objective df ''Profit'') (\<lambda>profit.
        then_do (objective df ''Sharpe Ratio'') (\<lambda>sharpe.
        then_do (objective df ''Equity DD %'') (\<lambda>dd.
        then_do (objective df ''Trades'') (\<lambda>trades.
        then_do (aggressive_card df param_cols profit trades) (\<lambda>card1.
        then_do (balanced_card pd df param_cols) (\<lambda>card2.
        then_do (conservative_card df param_cols profit sharpe dd) (\<lambda>card3.
        then_do (stable_range_card pd df param_cols) (\<lambda>card4.
          Inr [card1, card2, card3, card4])))))))))"

section \<open>Report generation\<close>

text \<open>
  The row filter of \<^verbatim>\<open>generate_report\<close>: with a \<^verbatim>\<open>Trades\<close> column, the rows whose
  coerced trade count is positive; without it, the table itself.
\<close>

definition row_filter :: "dataframe \<Rightarrow> dataframe" where
  "row_filter df =
     (if ''Trades'' \<in> set (columns df)
      then (let trades = fillna_series (map coerce (getitem df ''Trades'')) 0
            in df\<lparr>rows := map fst (filter (\<lambda>(r, t). t > 0) (zip (rows df) trades))\<rparr>)
      else df)"

record param_range =
  name :: string
  minimum :: "real option"
  maximum :: "real option"
  step :: "real option"

text \<open>The loop over \<^verbatim>\<open>param_cols\<close> that fills \<^verbatim>\<open>param_ranges\<close>.\<close>

fun param_ranges_of :: "dataframe \<Rightarrow> string list \<Rightarrow> error + param_range list" where
  "param_ranges_of df [] = Inr []"
| "param_ranges_of df (p # ps) =
     (if p \<notin> set (columns df) then Inl KeyError
      else (let vals = sort (remdups (dropna (map coerce (getitem df p))));
                stp = (if length vals \<ge> 2 then format_step (Some (vals ! 1 - vals ! 0)) else Some 0)
            in then_do (param_ranges_of df ps) (\<lambda>rest.
                 Inr (\<lparr>name = strip_inp p,
                       minimum = (if length vals > 0 then Some (vals ! 0) else None),
                       maximum = (if length vals > 0 then Some (last vals) else None),
                       step = stp\<rparr> # rest))))"

text \<open>
  What \<^verbatim>\<open>generate_report\<close> computes before it renders the page: the table with its
  derived columns, the Pareto flags, the summary counters, the parameter ranges
  and the cards. The clock, the template and the output file are left out.
\<close>

record report =
  table :: dataframe
  pareto_flag :: "bool list"
  param_count :: nat
  total_runs :: nat
  valid_count :: nat
  pareto_count :: nat
  param_ranges :: "param_range list"
  suggestion_cards :: "card list"

text \<open>
  DataFrames are mutable objects. A store maps addresses to the tables they hold;
  \<open>next_free\<close> is the first address not yet allocated.
\<close>

record store =
  objs :: "nat \<Rightarrow> dataframe"
  next_free :: nat

definition alloc :: "store \<Rightarrow> dataframe \<Rightarrow> store \<times> nat" where
  "alloc h d = (h\<lparr>objs := (objs h)(next_free h := d), next_free := Suc (next_free h)\<rparr>, next_free h)"

text \<open>\<^verbatim>\<open>df.copy()\<close>: a new object with the same columns and rows.\<close>

definition df_copy :: "store \<Rightarrow> nat \<Rightarrow> store \<times> nat" where
  "df_copy h a = alloc h (objs h a)"

text \<open>\<^verbatim>\<open>df[name] = values\<close> on the object at address a, in place.\<close>

definition st_setitem :: "store \<Rightarrow> nat \<Rightarrow> string \<Rightarrow> cell list \<Rightarrow> store" where
  "st_setitem h a col vals = h\<lparr>objs := (objs h)(a := setitem (objs h a) col vals)\<rparr>"

text \<open>
  \<^verbatim>\<open>add_z_scores\<close>, \<^verbatim>\<open>compute_default_score\<close> and \<^verbatim>\<open>generate_report\<close> on the store:
  each takes the address of its argument and returns the address of its result.
\<close>

fun st_add_z_score :: "pandas \<Rightarrow> nat \<Rightarrow> store \<Rightarrow> string \<times> string \<times> string \<Rightarrow> store" where
  "st_add_z_score pd d h (key, col, zcol) =
     (if col \<in> set (columns (objs h d))
      then st_setitem h d zcol (map float_cell (zscore pd (getitem (objs h d) col)))
      else h)"

definition st_add_z_scores :: "pandas \<Rightarrow> store \<Rightarrow> nat \<Rightarrow> store \<times> nat" where
  "st_add_z_scores pd h a =
     (let (h1, d) = df_copy h a
      in (foldl (st_add_z_score pd d) h1 METRIC_DEF, d))"

definition st_compute_default_score :: "store \<Rightarrow> nat \<Rightarrow> store \<times> nat" where
  "st_compute_default_score h a =
     (let (h1, d) = df_copy h a;
          score = map (\<lambda>r. float_cell (default_score (columns (objs h1 d)) r)) (rows (objs h1 d))
      in (st_setitem h1 d ''Score_Weighted'' score, d))"

text \<open>Lines 249 to 276: counters, parameter ranges and cards, all read-only.\<close>

definition summarise :: "pandas \<Rightarrow> dataframe \<Rightarrow> bool list \<Rightarrow> string list \<Rightarrow> error + report" where
  "summarise pd df flags param_cols =
     then_do (objective df ''Profit'') (\<lambda>profit.
     then_do (param_ranges_of df param_cols) (\<lambda>ranges.
     then_do (build_suggestion_cards pd df param_cols) (\<lambda>cards.
       Inr \<lparr>table = df,
            pareto_flag = flags,
            param_count = length param_cols,
            total_runs = length (rows df),
            valid_count = length (filter (\<lambda>p. p > 0) profit),
            pareto_count = length (filter (\<lambda>b. b) flags),
            param_ranges = ranges,
            suggestion_cards = cards\<rparr>)))"

definition st_generate_report :: "pandas \<Rightarrow> store \<Rightarrow> nat \<Rightarrow> string list \<Rightarrow> store \<times> (error + report)" where
  "st_generate_report pd h a param_cols =
     (let (h1, d0) = df_copy h a;
          (h2, d1) = (if ''Trades'' \<in> set (columns (objs h1 d0))
                      then alloc h1 (row_filter (objs h1 d0)) else (h1, d0));
          (h3, d2) = st_add_z_scores pd h2 d1;
          (h4, d3) = st_compute_default_score h3 d2
      in case compute_pareto (objs h4 d3) of
           Inl e \<Rightarrow> (h4, Inl e)
         | Inr flags \<Rightarrow>
             (let h5 = st_setitem h4 d3 ''Is_Pareto'' (map Flag flags)
              in (h5, summarise pd (objs h5 d3) flags param_cols)))"

text \<open>The report of a table, whatever else the store holds.\<close>

definition generate_report :: "pandas \<Rightarrow> dataframe \<Rightarrow> string list \<Rightarrow> error + report" where
  "generate_report pd df param_cols =
     snd (st_generate_report pd \<lparr>objs = (\<lambda>_. df), next_free = 1\<rparr> 0 param_cols)"

section \<open>Notions of the specification\<close>

text \<open>An objective cell coerced to a number, a missing value counting as 0.\<close>

definition num0 :: "cell \<Rightarrow> real" where
  "num0 c = (case coerce c of None \<Rightarrow> 0 | Some x \<Rightarrow> x)"

definition objectives :: "dataframe \<Rightarrow> (real \<times> real \<times> real) list" where
  "objectives df =
     map (\<lambda>r. (num0 (r ''Profit''), num0 (r ''Sharpe Ratio''), num0 (r ''Equity DD %''))) (rows df)"

text \<open>A row given by its cells; every other column is missing.\<close>

definition mk_row :: "(string \<times> cell) list \<Rightarrow> row" where
  "mk_row kvs = (\<lambda>c. case map_of kvs c of None \<Rightarrow> Missing | Some v \<Rightarrow> v)"

text \<open>The three rows A, B and C of the specification's scenario.\<close>

definition scenario :: dataframe where
  "scenario =
     \<lparr>columns = [''Profit'', ''Sharpe Ratio'', ''Equity DD %'', ''Trades''],
      rows = [mk_row [(''Profit'', Num 100), (''Sharpe Ratio'', Num 1),
                      (''Equity DD %'', Num 5), (''Trades'', Num 20)],
              mk_row [(''Profit'', Num 80), (''Sharpe Ratio'', Num (12 / 10)),
                      (''Equity DD %'', Num 3), (''Trades'', Num 15)],
              mk_row [(''Profit'', Num 50), (''Sharpe Ratio'', Num (5 / 10)),
                      (''Equity DD %'', Num 10), (''Trades'', Num 5)]]\<rparr>"

text \<open>
  What is known of the order of a descending sort: it is a rearrangement of the
  positions in which no key stands before a larger one, NaN keys last.
  \<open>goes_before a b\<close>: a row with key a may stand before one with key b.
\<close>

fun goes_before :: "real option \<Rightarrow> real option \<Rightarrow> bool" where
  "goes_before _ None = True"
| "goes_before None (Some b) = False"
| "goes_before (Some a) (Some b) = (a \<ge> b)"

definition sorts_descending :: "pandas \<Rightarrow> bool" where
  "sorts_descending pd \<longleftrightarrow>
     (\<forall>keys. mset (argsort_desc pd keys) = mset [0..<length keys] \<and>
             sorted_wrt (\<lambda>i j. goes_before (keys ! i) (keys ! j)) (argsort_desc pd keys))"

text \<open>
  One library to run the definitions with: the mean and the sample standard
  deviation without rounding, and the descending order that keeps equal keys in
  the order of the table. It serves for examples only; no statement about
  the program relies on it.
\<close>

definition exact_mean :: "real option list \<Rightarrow> real option" where
  "exact_mean s =
     (let xs = dropna s
      in if xs = [] then None else Some (sum_list xs / real (length xs)))"

definition exact_std :: "real option list \<Rightarrow> real option" where
  "exact_std s =
     (let xs = dropna s
      in if length xs < 2 then None
         else (let m = sum_list xs / real (length xs)
               in Some (sqrt (sum_list (map (\<lambda>x. (x - m) ^ 2) xs) / real (length xs - 1)))))"

fun insert_key :: "nat \<times> real option \<Rightarrow> (nat \<times> real option) list \<Rightarrow> (nat \<times> real option) list" where
  "insert_key x [] = [x]"
| "insert_key x (y # ys) =
     (if goes_before (snd x) (snd y) then x # y # ys else y # insert_key x ys)"

definition stable_argsort_desc :: "real option list \<Rightarrow> nat list" where
  "stable_argsort_desc keys = map fst (foldr insert_key (zip [0..<length keys] keys) [])"

definition ideal_pandas :: pandas where
  "ideal_pandas =
     \<lparr>mean_of = exact_mean, std_of = exact_std, argsort_desc = stable_argsort_desc\<rparr>"

text \<open>The table after the row filter, the Normalizer and the Scorer.\<close>

definition analysed :: "pandas \<Rightarrow> dataframe \<Rightarrow> dataframe" where
  "analysed pd df = compute_default_score (add_z_scores pd (row_filter df))"

text \<open>
  A one-row table with a parameter, profit and trade count, and neither Sharpe
  ratio nor drawdown.
\<close>

definition sparse_table :: dataframe where
  "sparse_table =
     \<lparr>columns = [''inpPeriod'', ''Profit'', ''Trades''],
      rows = [mk_row [(''inpPeriod'', Num 30), (''Profit'', Num 100), (''Trades'', Num 20)]]\<rparr>"

text \<open>The table of a sheet whose data rows hold no cell: no column, no row.\<close>

definition empty_table :: dataframe where
  "empty_table = \<lparr>columns = [], rows = []\<rparr>"

text \<open>The names of the derived columns.\<close>

definition zcols :: "string list" where
  "zcols = map (\<lambda>m. snd (snd m)) METRIC_DEF"

definition derived_cols :: "string list" where
  "derived_cols = zcols @ [''Score_Weighted'', ''Is_Pareto'']"

text \<open>Two tables with as many rows, equal row by row on every column outside S.\<close>

definition same_outside :: "string set \<Rightarrow> dataframe \<Rightarrow> dataframe \<Rightarrow> bool" where
  "same_outside S df df' =
     list_all2 (\<lambda>r r'. \<forall>c. c \<notin> S \<longrightarrow> r' c = r c) (rows df) (rows df')"

text \<open>A metric column with a text cell whose two numbers are equal.\<close>

definition constant_column :: "cell list" where
  "constant_column = [Num 5, Num 5, Str ''n/a'']"

text \<open>
  The test of the loop of \<^verbatim>\<open>format_step\<close>: rounding to d digits reconstructs the
  value within 1e-10.
\<close>

definition within_tolerance :: "real \<Rightarrow> nat \<Rightarrow> bool" where
  "within_tolerance v d \<longleftrightarrow> \<bar>py_round v d - v\<bar> < 1 / 10 ^ 10"

text \<open>The default weight of a metric key.\<close>

definition default_weight :: "string \<Rightarrow> real" where
  "default_weight key = (case map_of DEFAULT_WEIGHTS key of None \<Rightarrow> 0 | Some v \<Rightarrow> v)"

text \<open>
  A table of four runs in which the Sharpe ratio of the last is missing, and the
  same table with its standardized columns: profits 0, 4, 4, 4 have mean 3 and
  sample standard deviation 2, Sharpe ratios 1, 2, 3 have mean 2 and sample
  standard deviation 1, all of them without rounding in binary64.
\<close>

definition gap_table :: dataframe where
  "gap_table =
     \<lparr>columns = [''Profit'', ''Sharpe Ratio''],
      rows = [mk_row [(''Profit'', Num 0), (''Sharpe Ratio'', Num 1)],
              mk_row [(''Profit'', Num 4), (''Sharpe Ratio'', Num 2)],
              mk_row [(''Profit'', Num 4), (''Sharpe Ratio'', Num 3)],
              mk_row [(''Profit'', Num 4), (''Sharpe Ratio'', Missing)]]\<rparr>"

definition gap_z_table :: dataframe where
  "gap_z_table =
     \<lparr>columns = [''Profit'', ''Sharpe Ratio'', ''z_profit'', ''z_sharpe_ratio''],
      rows = [mk_row [(''Profit'', Num 0), (''Sharpe Ratio'', Num 1),
                      (''z_profit'', Num (- (3 / 2))), (''z_sharpe_ratio'', Num (- 1))],
              mk_row [(''Profit'', Num 4), (''Sharpe Ratio'', Num 2),
                      (''z_profit'', Num (1 / 2)), (''z_sharpe_ratio'', Num 0)],
              mk_row [(''Profit'', Num 4), (''Sharpe Ratio'', Num 3),
                      (''z_profit'', Num (1 / 2)), (''z_sharpe_ratio'', Num 1)],
              mk_row [(''Profit'', Num 4), (''Sharpe Ratio'', Missing),
                      (''z_profit'', Num (1 / 2)), (''z_sharpe_ratio'', Missing)]]\<rparr>"

text \<open>
  Two runs without a drawdown column, and the scored scenario without its trade
  counts.
\<close>

definition no_drawdown_table :: dataframe where
  "no_drawdown_table =
     \<lparr>columns = [''Profit'', ''Sharpe Ratio'', ''Trades''],
      rows = [mk_row [(''Profit'', Num 100), (''Sharpe Ratio'', Num 1), (''Trades'', Num 20)],
              mk_row [(''Profit'', Num 50), (''Sharpe Ratio'', Num (5 / 10)), (''Trades'', Num 5)]]\<rparr>"

definition untraded_scenario :: dataframe where
  "untraded_scenario =
     \<lparr>columns = [''inpPeriod'', ''Profit'', ''Sharpe Ratio'', ''Equity DD %'', ''Score_Weighted''],
      rows = [mk_row [(''inpPeriod'', Num 30), (''Profit'', Num 100), (''Sharpe Ratio'', Num 1),
                      (''Equity DD %'', Num 5), (''Score_Weighted'', Num (5 / 10))],
              mk_row [(''inpPeriod'', Num 20), (''Profit'', Num 80), (''Sharpe Ratio'', Num (12 / 10)),
                      (''Equity DD %'', Num 3), (''Score_Weighted'', Num (7 / 10))],
              mk_row [(''inpPeriod'', Num 10), (''Profit'', Num 50), (''Sharpe Ratio'', Num (5 / 10)),
                      (''Equity DD %'', Num 10), (''Score_Weighted'', Num (- (12 / 10)))]]\<rparr>"

text \<open>A one-row table of standardized values, all of them numbers.\<close>

definition full_z_table :: dataframe where
  "full_z_table =
     \<lparr>columns = [''Profit'', ''Sharpe Ratio'', ''z_profit'', ''z_sharpe_ratio''],
      rows = [mk_row [(''Profit'', Num 100), (''Sharpe Ratio'', Num 2),
                      (''z_profit'', Num 1), (''z_sharpe_ratio'', Num (- 1))]]\<rparr>"

text \<open>The numeric values of a column, and the score by which rows are ranked.\<close>

definition numeric_values :: "dataframe \<Rightarrow> string \<Rightarrow> real list" where
  "numeric_values df p = dropna (map coerce (getitem df p))"

definition score_of :: "row \<Rightarrow> real option" where
  "score_of r = coerce (r ''Score_Weighted'')"

text \<open>
  The scenario of the specification with a parameter and a default score for each
  row.
\<close>

definition scored_scenario :: dataframe where
  "scored_scenario =
     \<lparr>columns = [''inpPeriod'', ''Profit'', ''Sharpe Ratio'', ''Equity DD %'', ''Trades'',
                 ''Score_Weighted''],
      rows = [mk_row [(''inpPeriod'', Num 30), (''Profit'', Num 100), (''Sharpe Ratio'', Num 1),
                      (''Equity DD %'', Num 5), (''Trades'', Num 20),
                      (''Score_Weighted'', Num (5 / 10))],
              mk_row [(''inpPeriod'', Num 20), (''Profit'', Num 80), (''Sharpe Ratio'', Num (12 / 10)),
                      (''Equity DD %'', Num 3), (''Trades'', Num 15),
                      (''Score_Weighted'', Num (7 / 10))],
              mk_row [(''inpPeriod'', Num 10), (''Profit'', Num 50), (''Sharpe Ratio'', Num (5 / 10)),
                      (''Equity DD %'', Num 10), (''Trades'', Num 5),
                      (''Score_Weighted'', Num (- (12 / 10)))]]\<rparr>"

text \<open>
  A table with a run that traded and one that did not, and a table without a
  trade count.
\<close>

definition traded_and_idle :: dataframe where
  "traded_and_idle =
     \<lparr>columns = [''Profit'', ''Sharpe Ratio'', ''Equity DD %'', ''Trades''],
      rows = [mk_row [(''Profit'', Num 100), (''Sharpe Ratio'', Num 1),
                      (''Equity DD %'', Num 5), (''Trades'', Num 20)],
              mk_row [(''Profit'', Num 0), (''Sharpe Ratio'', Num 0),
                      (''Equity DD %'', Num 0), (''Trades'', Num 0)]]\<rparr>"

definition untraded_table :: dataframe where
  "untraded_table = \<lparr>columns = [''Profit''], rows = [mk_row [(''Profit'', Num 100)]]\<rparr>"

text \<open>A store in which the caller holds the scenario table at address 0.\<close>

definition caller_store :: store where
  "caller_store = \<lparr>objs = (\<lambda>_. scenario), next_free = 1\<rparr>"

section \<open>Pareto classifier: the flags\<close>

lemma then_do_Inr [simp]: "then_do (Inr x) f = f x"
  by (simp add: then_do_def)

lemma then_do_Inl [simp]: "then_do (Inl e) f = Inl e"
  by (simp add: then_do_def)

lemma objective_present:
  "col \<in> set (columns df) \<Longrightarrow> objective df col = Inr (map (\<lambda>r. num0 (r col)) (rows df))"
  by (simp add: objective_def df_get_def num0_def fillna_series_def comp_def)

lemma objective_absent:
  "col \<notin> set (columns df) \<Longrightarrow> objective df col = Inl AttributeError"
  by (simp add: objective_def df_get_def)

lemma scan_row_iff:
  "scan_row obj i js \<longleftrightarrow> (\<forall>j\<in>set js. j \<noteq> i \<longrightarrow> \<not> dominates (obj ! j) (obj ! i))"
  by (induction js) auto

lemma pareto_flags_length: "length (pareto_flags obj) = length obj"
  by (simp add: pareto_flags_def)

lemma pareto_flags_nth:
  "i < length obj \<Longrightarrow>
   pareto_flags obj ! i \<longleftrightarrow> (\<forall>j<length obj. j \<noteq> i \<longrightarrow> \<not> dominates (obj ! j) (obj ! i))"
  by (auto simp add: pareto_flags_def scan_row_iff)

lemma zip3_map:
  "zip (map f xs) (zip (map g xs) (map h xs)) = map (\<lambda>r. (f r, g r, h r)) xs"
  by (induction xs) auto

lemma compute_pareto_present:
  assumes "''Profit'' \<in> set (columns df)" "''Sharpe Ratio'' \<in> set (columns df)"
    "''Equity DD %'' \<in> set (columns df)"
  shows "compute_pareto df = Inr (pareto_flags (objectives df))"
  using assms
  by (simp add: compute_pareto_def objective_present zip3_map objectives_def pareto_flags_def)

lemma compute_pareto_empty: "rows df = [] \<Longrightarrow> compute_pareto df = Inr []"
  by (simp add: compute_pareto_def)

lemma exists_undominated:
  assumes "obj \<noteq> []"
  shows "\<exists>i<length obj. \<forall>j<length obj. \<not> dominates (obj ! j) (obj ! i)"
proof -
  define f :: "real \<times> real \<times> real \<Rightarrow> real" where "f = (\<lambda>(p, s, d). p + s - d)"
  have dom: "dominates a b \<Longrightarrow> f b < f a" for a b
    by (cases a; cases b) (auto simp: f_def)
  let ?S = "f ` set obj"
  have "finite ?S" "?S \<noteq> {}" using assms by auto
  then have "Max ?S \<in> ?S" by (rule Max_in)
  then obtain x where x: "x \<in> set obj" "f x = Max ?S" by auto
  then obtain i where i: "i < length obj" "obj ! i = x" by (auto simp: in_set_conv_nth)
  have "\<not> dominates (obj ! j) (obj ! i)" if "j < length obj" for j
  proof
    assume "dominates (obj ! j) (obj ! i)"
    then have "f (obj ! i) < f (obj ! j)" by (rule dom)
    moreover have "f (obj ! j) \<le> Max ?S" using that by (intro Max_ge) auto
    ultimately show False using x i by simp
  qed
  with i show ?thesis by blast
qed

lemma scenario_columns:
  "rows scenario = [] \<or> {''Profit'', ''Sharpe Ratio'', ''Equity DD %''} \<subseteq> set (columns scenario)"
  by (simp add: scenario_def)

text \<open>
  With the three objective columns present (or no rows at all),
  \<^verbatim>\<open>compute_pareto\<close> returns one flag per row, and the flag of row i is true iff
  no other row j dominates it: j at least as good on profit and Sharpe ratio, at
  most as large on drawdown, and strictly better on one of the three, every
  cell coerced to a number with a missing value as 0. Rows equal on all three
  axes do not dominate each other.
\<close>

lemma pareto_flag_iff_undominated:
  assumes "rows df = [] \<or>
     {''Profit'', ''Sharpe Ratio'', ''Equity DD %''} \<subseteq> set (columns df)"
  shows "\<exists>flags. compute_pareto df = Inr flags \<and> length flags = length (rows df) \<and>
     (\<forall>i<length (rows df). flags ! i \<longleftrightarrow>
        \<not> (\<exists>j<length (rows df). j \<noteq> i \<and>
             num0 ((rows df ! j) ''Profit'') \<ge> num0 ((rows df ! i) ''Profit'') \<and>
             num0 ((rows df ! j) ''Sharpe Ratio'') \<ge> num0 ((rows df ! i) ''Sharpe Ratio'') \<and>
             num0 ((rows df ! j) ''Equity DD %'') \<le> num0 ((rows df ! i) ''Equity DD %'') \<and>
             (num0 ((rows df ! j) ''Profit'') > num0 ((rows df ! i) ''Profit'') \<or>
              num0 ((rows df ! j) ''Sharpe Ratio'') > num0 ((rows df ! i) ''Sharpe Ratio'') \<or>
              num0 ((rows df ! j) ''Equity DD %'') < num0 ((rows df ! i) ''Equity DD %'')))) \<and>
     (\<forall>x. \<not> dominates x x)"
proof -
  have irrefl: "\<not> dominates x x" for x
    by (cases x) auto
  show ?thesis
  proof (cases "rows df = []")
    case True
    then show ?thesis using irrefl by (simp add: compute_pareto_empty)
  next
    case False
    with assms have cp: "compute_pareto df = Inr (pareto_flags (objectives df))"
      by (intro compute_pareto_present) auto
    have len: "length (objectives df) = length (rows df)" by (simp add: objectives_def)
    have "pareto_flags (objectives df) ! i \<longleftrightarrow>
          \<not> (\<exists>j<length (rows df). j \<noteq> i \<and>
               num0 ((rows df ! j) ''Profit'') \<ge> num0 ((rows df ! i) ''Profit'') \<and>
               num0 ((rows df ! j) ''Sharpe Ratio'') \<ge> num0 ((rows df ! i) ''Sharpe Ratio'') \<and>
               num0 ((rows df ! j) ''Equity DD %'') \<le> num0 ((rows df ! i) ''Equity DD %'') \<and>
               (num0 ((rows df ! j) ''Profit'') > num0 ((rows df ! i) ''Profit'') \<or>
                num0 ((rows df ! j) ''Sharpe Ratio'') > num0 ((rows df ! i) ''Sharpe Ratio'') \<or>
                num0 ((rows df ! j) ''Equity DD %'') < num0 ((rows df ! i) ''Equity DD %'')))"
      if "i < length (rows df)" for i
      using that by (simp add: pareto_flags_nth len) (auto simp: objectives_def)
    with cp irrefl show ?thesis by (simp add: pareto_flags_length len)
  qed
qed

lemma pareto_flags_of_scenario:
  "(rows scenario = [] \<or>
      {''Profit'', ''Sharpe Ratio'', ''Equity DD %''} \<subseteq> set (columns scenario)) \<and>
   (\<exists>flags. compute_pareto scenario = Inr flags \<and> length flags = length (rows scenario) \<and>
      flags = [True, True, False])"
proof -
  have fl: "compute_pareto scenario = Inr [True, True, False]"
    by (simp add: compute_pareto_def scenario_def objective_def df_get_def mk_row_def
        pareto_flags_def fillna_series_def upt_rec)
  from pareto_flag_iff_undominated [OF scenario_columns]
  obtain flags where "compute_pareto scenario = Inr flags" "length flags = length (rows scenario)"
    by blast
  with fl scenario_columns show ?thesis by simp
qed

text \<open>
  For a non-empty table with the three objective columns, at least one row
  is flagged; for an empty table there is no flag.
\<close>

lemma pareto_front_nonempty:
  assumes "rows df = [] \<or>
     {''Profit'', ''Sharpe Ratio'', ''Equity DD %''} \<subseteq> set (columns df)"
  shows "\<exists>flags. compute_pareto df = Inr flags \<and>
           (if rows df = [] then flags = [] else True \<in> set flags)"
proof (cases "rows df = []")
  case True
  then show ?thesis by (simp add: compute_pareto_empty)
next
  case False
  with assms have cp: "compute_pareto df = Inr (pareto_flags (objectives df))"
    by (intro compute_pareto_present) auto
  from False have "objectives df \<noteq> []" by (simp add: objectives_def)
  from exists_undominated [OF this] obtain i where
    i: "i < length (objectives df)"
       "\<forall>j<length (objectives df). \<not> dominates (objectives df ! j) (objectives df ! i)"
    by blast
  then have "pareto_flags (objectives df) ! i" by (simp add: pareto_flags_nth)
  with i(1) have "True \<in> set (pareto_flags (objectives df))"
    by (metis nth_mem pareto_flags_length)
  with cp False show ?thesis by simp
qed

lemma pareto_front_of_scenario:
  "(rows scenario = [] \<or>
      {''Profit'', ''Sharpe Ratio'', ''Equity DD %''} \<subseteq> set (columns scenario)) \<and>
   rows scenario \<noteq> [] \<and>
   (\<exists>flags. compute_pareto scenario = Inr flags \<and> True \<in> set flags)"
proof -
  have ne: "rows scenario \<noteq> []" by (simp add: scenario_def)
  from pareto_front_nonempty [OF scenario_columns] ne scenario_columns
  show ?thesis by simp
qed

section \<open>The store functions and their values\<close>

lemma objs_st_setitem [simp]:
  "objs (st_setitem h a c v) = (objs h)(a := setitem (objs h a) c v)"
  by (simp add: st_setitem_def)

lemma next_free_st_setitem [simp]: "next_free (st_setitem h a c v) = next_free h"
  by (simp add: st_setitem_def)

lemma st_add_z_score_foldl:
  "foldl (st_add_z_score pd d) h ms = h\<lparr>objs := (objs h)(d := foldl (add_z_score pd) (objs h d) ms)\<rparr>"
proof (induction ms arbitrary: h)
  case Nil
  show ?case by simp
next
  case (Cons m ms)
  obtain key col zcol where m: "m = (key, col, zcol)" by (cases m) auto
  show ?case
    by (intro store.equality) (auto simp add: Cons.IH m fun_eq_iff)
qed

lemma st_add_z_scores_eq:
  "st_add_z_scores pd h a = (h\<lparr>objs := (objs h)(next_free h := add_z_scores pd (objs h a)),
                              next_free := Suc (next_free h)\<rparr>, next_free h)"
  by (simp add: st_add_z_scores_def df_copy_def alloc_def st_add_z_score_foldl add_z_scores_def)

lemma st_compute_default_score_eq:
  "st_compute_default_score h a =
     (h\<lparr>objs := (objs h)(next_free h := compute_default_score (objs h a)),
        next_free := Suc (next_free h)\<rparr>, next_free h)"
  by (simp add: st_compute_default_score_def df_copy_def alloc_def st_setitem_def
      compute_default_score_def)

lemma generate_report_eq:
  "generate_report pd df param_cols =
     then_do (compute_pareto (analysed pd df)) (\<lambda>flags.
       summarise pd (setitem (analysed pd df) ''Is_Pareto'' (map Flag flags)) flags param_cols)"
  by (simp add: generate_report_def st_generate_report_def df_copy_def alloc_def
      st_add_z_scores_eq st_compute_default_score_eq st_setitem_def analysed_def
      row_filter_def then_do_def Let_def split: sum.splits)

section \<open>Columns and rows of the derived tables\<close>

lemma length_zscore [simp]: "length (zscore pd series) = length series"
  by (simp add: zscore_def Let_def split: option.splits)

lemma length_getitem [simp]: "length (getitem df col) = length (rows df)"
  by (simp add: getitem_def)

lemma columns_setitem:
  "set (columns (setitem df n vals)) = insert n (set (columns df))"
  by (auto simp add: setitem_def)

lemma same_outside_refl: "same_outside S df df"
  by (simp add: same_outside_def list_all2_same)

lemma same_outside_trans:
  "same_outside S a b \<Longrightarrow> same_outside T b c \<Longrightarrow> same_outside (S \<union> T) a c"
  unfolding same_outside_def
  by (erule (1) list_all2_trans [rotated]) auto

lemma same_outside_mono:
  "same_outside S a b \<Longrightarrow> S \<subseteq> T \<Longrightarrow> same_outside T a b"
  unfolding same_outside_def
  by (erule list_all2_mono) auto

lemma same_outside_length: "same_outside S a b \<Longrightarrow> length (rows b) = length (rows a)"
  by (simp add: same_outside_def list_all2_lengthD)

lemma same_outside_nth:
  "same_outside S a b \<Longrightarrow> i < length (rows a) \<Longrightarrow> c \<notin> S \<Longrightarrow> (rows b ! i) c = (rows a ! i) c"
  by (auto simp add: same_outside_def list_all2_conv_all_nth)

lemma same_outside_setitem:
  assumes "length vals = length (rows df)"
  shows "same_outside {n} df (setitem df n vals)"
  using assms
  by (auto simp add: same_outside_def setitem_def list_all2_conv_all_nth)

lemma add_z_score_columns:
  "set (columns df) \<subseteq> set (columns (add_z_score pd df m)) \<and>
   set (columns (add_z_score pd df m)) \<subseteq> insert (snd (snd m)) (set (columns df))"
  by (cases m) (auto simp add: columns_setitem)

lemma add_z_score_same: "same_outside {snd (snd m)} df (add_z_score pd df m)"
  by (cases m) (auto simp add: same_outside_setitem same_outside_refl)

lemma foldl_add_z_score_columns:
  "set (columns df) \<subseteq> set (columns (foldl (add_z_score pd) df ms)) \<and>
   set (columns (foldl (add_z_score pd) df ms)) \<subseteq> set (columns df) \<union> (\<lambda>m. snd (snd m)) ` set ms"
proof (induction ms arbitrary: df)
  case Nil
  show ?case by simp
next
  case (Cons m ms)
  from Cons.IH [of "add_z_score pd df m"] add_z_score_columns [of df pd m]
  show ?case by auto
qed

lemma foldl_add_z_score_same:
  "same_outside ((\<lambda>m. snd (snd m)) ` set ms) df (foldl (add_z_score pd) df ms)"
proof (induction ms arbitrary: df)
  case Nil
  show ?case by (simp add: same_outside_refl)
next
  case (Cons m ms)
  from same_outside_trans [OF add_z_score_same [of m df] Cons.IH [of "add_z_score pd df m"]]
  show ?case by (simp add: insert_commute)
qed

lemma zcols_image: "(\<lambda>m. snd (snd m)) ` set METRIC_DEF = set zcols"
  by (simp add: zcols_def)

lemma add_z_scores_columns:
  "set (columns df) \<subseteq> set (columns (add_z_scores pd df))"
  "set (columns (add_z_scores pd df)) \<subseteq> set (columns df) \<union> set zcols"
  using foldl_add_z_score_columns [where df = df and ms = METRIC_DEF and pd = pd]
  by (simp_all add: add_z_scores_def zcols_image)

lemma add_z_scores_same: "same_outside (set zcols) df (add_z_scores pd df)"
  using foldl_add_z_score_same [where df = df and ms = METRIC_DEF and pd = pd]
  by (simp add: add_z_scores_def zcols_image)

lemma compute_default_score_columns:
  "set (columns (compute_default_score df)) = insert ''Score_Weighted'' (set (columns df))"
  by (simp add: compute_default_score_def columns_setitem)

lemma compute_default_score_same:
  "same_outside {''Score_Weighted''} df (compute_default_score df)"
  by (simp add: compute_default_score_def same_outside_setitem)

lemma row_filter_columns [simp]: "columns (row_filter df) = columns df"
  by (simp add: row_filter_def Let_def)

lemma analysed_columns:
  "set (columns df) \<subseteq> set (columns (analysed pd df))"
  "''Score_Weighted'' \<in> set (columns (analysed pd df))"
  "set (columns (analysed pd df)) \<subseteq> set (columns df) \<union> set zcols \<union> {''Score_Weighted''}"
  using add_z_scores_columns [where df = "row_filter df" and pd = pd]
  by (auto simp add: analysed_def compute_default_score_columns)

lemma analysed_same:
  "same_outside (set zcols \<union> {''Score_Weighted''}) (row_filter df) (analysed pd df)"
  unfolding analysed_def
  by (rule same_outside_trans [OF add_z_scores_same compute_default_score_same])

lemma analysed_length: "length (rows (analysed pd df)) = length (rows (row_filter df))"
  by (rule same_outside_length [OF analysed_same])

lemma zcols_eval:
  "set zcols = {''z_profit'', ''z_drawdown'', ''z_sharpe_ratio'', ''z_profit_factor'',
     ''z_recovery_factor'', ''z_expected_payoff''}"
  by (simp add: zcols_def METRIC_DEF_def)

section \<open>Absent columns\<close>

lemma compute_pareto_absent:
  assumes "rows df \<noteq> []"
    and "\<not> {''Profit'', ''Sharpe Ratio'', ''Equity DD %''} \<subseteq> set (columns df)"
  shows "compute_pareto df = Inl AttributeError"
proof -
  from assms(2) consider "''Profit'' \<notin> set (columns df)"
    | "''Profit'' \<in> set (columns df)" "''Sharpe Ratio'' \<notin> set (columns df)"
    | "''Profit'' \<in> set (columns df)" "''Sharpe Ratio'' \<in> set (columns df)"
      "''Equity DD %'' \<notin> set (columns df)"
    by auto
  then show ?thesis
    using assms(1)
    by cases (simp_all add: compute_pareto_def objective_present objective_absent)
qed

lemma build_suggestion_cards_absent:
  assumes "rows df \<noteq> []"
    and "\<not> {''Profit'', ''Sharpe Ratio'', ''Equity DD %'', ''Trades''} \<subseteq> set (columns df)"
  shows "build_suggestion_cards pd df param_cols = Inl AttributeError"
proof -
  have "then_do (objective df c) f = Inl AttributeError \<or> (\<exists>v. then_do (objective df c) f = f v)"
    for c and f :: "real list \<Rightarrow> error + card list"
    by (cases "c \<in> set (columns df)") (auto simp: objective_present objective_absent)
  note step = this
  from assms(2) consider "''Profit'' \<notin> set (columns df)"
    | "''Profit'' \<in> set (columns df)" "''Sharpe Ratio'' \<notin> set (columns df)"
    | "''Profit'' \<in> set (columns df)" "''Sharpe Ratio'' \<in> set (columns df)"
      "''Equity DD %'' \<notin> set (columns df)"
    | "''Profit'' \<in> set (columns df)" "''Sharpe Ratio'' \<in> set (columns df)"
      "''Equity DD %'' \<in> set (columns df)" "''Trades'' \<notin> set (columns df)"
    by auto
  then show ?thesis
    using assms(1)
    by cases (simp_all add: build_suggestion_cards_def objective_present objective_absent)
qed

lemma summarise_absent:
  "''Profit'' \<notin> set (columns df) \<Longrightarrow> summarise pd df flags param_cols = Inl AttributeError"
  by (simp add: summarise_def objective_absent)

text \<open>
  C4. On a one-row table without Sharpe ratio and drawdown columns the Pareto
  classifier, the Recommendation Engine and the whole report raise
  \<^verbatim>\<open>AttributeError\<close>: \<^verbatim>\<open>df.get(col, 0)\<close> hands back the scalar 0, which has no
  \<^verbatim>\<open>fillna\<close>.
\<close>

theorem absent_column_raises:
  "compute_pareto sparse_table = Inl AttributeError \<and>
   build_suggestion_cards pd (analysed pd sparse_table) [''inpPeriod''] = Inl AttributeError \<and>
   generate_report pd sparse_table [''inpPeriod''] = Inl AttributeError"
proof -
  have 1: "compute_pareto sparse_table = Inl AttributeError"
    by (rule compute_pareto_absent) (simp_all add: sparse_table_def)
  have rf: "length (rows (row_filter sparse_table)) = 1"
    by (simp add: row_filter_def sparse_table_def getitem_def fillna_series_def mk_row_def)
  then have ne: "rows (analysed pd sparse_table) \<noteq> []"
    using analysed_length [where df = sparse_table and pd = pd] by auto
  have "''Sharpe Ratio'' \<notin> set (columns sparse_table) \<union> set zcols \<union> {''Score_Weighted''}"
    by (simp add: sparse_table_def zcols_eval)
  with analysed_columns(3) [where df = sparse_table and pd = pd]
  have no: "''Sharpe Ratio'' \<notin> set (columns (analysed pd sparse_table))" by blast
  have 2: "build_suggestion_cards pd (analysed pd sparse_table) [''inpPeriod''] = Inl AttributeError"
    by (rule build_suggestion_cards_absent [OF ne]) (use no in simp)
  have 3: "compute_pareto (analysed pd sparse_table) = Inl AttributeError"
    by (rule compute_pareto_absent [OF ne]) (use no in simp)
  show ?thesis
    using 1 2 by (simp add: generate_report_eq 3)
qed

text \<open>
  C1. On two runs without a drawdown column the classifier raises
  \<^verbatim>\<open>AttributeError\<close> and marks no row. With the absent column counting as 0, as the
  default of \<^verbatim>\<open>df.get\<close> intends, the first run dominates the second, so the flags
  would be true and false.
\<close>

theorem pareto_flags_lost_without_drawdown:
  "compute_pareto no_drawdown_table = Inl AttributeError \<and>
   pareto_flags (objectives no_drawdown_table) = [True, False]"
proof -
  have ne: "rows no_drawdown_table \<noteq> []" by (simp add: no_drawdown_table_def)
  have 1: "compute_pareto no_drawdown_table = Inl AttributeError"
    by (rule compute_pareto_absent [OF ne]) (simp add: no_drawdown_table_def)
  have 2: "pareto_flags (objectives no_drawdown_table) = [True, False]"
    by (simp add: pareto_flags_def objectives_def no_drawdown_table_def mk_row_def num0_def upt_rec)
  from 1 2 show ?thesis by simp
qed

text \<open>
  C3. The one-row table without Sharpe ratio and drawdown columns is not empty,
  and the classifier returns no flags for it: no row is flagged.
\<close>

theorem pareto_front_lost_without_columns:
  "rows sparse_table \<noteq> [] \<and> (\<forall>flags. compute_pareto sparse_table \<noteq> Inr flags)"
proof -
  have ne: "rows sparse_table \<noteq> []" by (simp add: sparse_table_def)
  have "compute_pareto sparse_table = Inl AttributeError"
    by (rule compute_pareto_absent [OF ne]) (simp add: sparse_table_def)
  with ne show ?thesis by simp
qed

section \<open>Empty tables\<close>

lemma param_ranges_of_ok:
  "set ps \<subseteq> set (columns df) \<Longrightarrow> \<exists>rs. param_ranges_of df ps = Inr rs"
  by (induction ps) (auto simp add: Let_def)

lemma empty_filtered_report:
  assumes "rows (row_filter df) = []" and "''Profit'' \<in> set (columns df)"
    and "set ps \<subseteq> set (columns df)"
  shows "\<exists>rep. generate_report pd df ps = Inr rep \<and> suggestion_cards rep = [NoData] \<and>
           pareto_flag rep = [] \<and> total_runs rep = 0 \<and> valid_count rep = 0 \<and>
           pareto_count rep = 0"
proof -
  let ?t = "setitem (analysed pd df) ''Is_Pareto'' []"
  have e: "rows (analysed pd df) = []"
    using analysed_length [where df = df and pd = pd] assms(1) by simp
  then have cp: "compute_pareto (analysed pd df) = Inr []"
    by (rule compute_pareto_empty)
  have rt: "rows ?t = []" by (simp add: setitem_def)
  have ct: "set (columns df) \<subseteq> set (columns ?t)"
    using analysed_columns(1) [where df = df and pd = pd] by (auto simp add: columns_setitem)
  with assms(2) have "objective ?t ''Profit'' = Inr []"
    by (simp add: objective_present rt subset_iff)
  moreover from ct assms(3) obtain rs where "param_ranges_of ?t ps = Inr rs"
    using param_ranges_of_ok [of ps ?t] by auto
  moreover have "build_suggestion_cards pd ?t ps = Inr [NoData]"
    by (simp add: build_suggestion_cards_def rt)
  ultimately show ?thesis
    by (simp add: generate_report_eq cp summarise_def rt)
qed

text \<open>
  C9. On the table without columns and rows the Recommendation Engine returns
  the one placeholder card and the Pareto classifier no flag, but the report
  raises \<^verbatim>\<open>AttributeError\<close> where it counts the rows of positive profit.
\<close>

theorem empty_table_report_raises:
  "build_suggestion_cards pd empty_table [] = Inr [NoData] \<and>
   compute_pareto empty_table = Inr [] \<and>
   generate_report pd empty_table [] = Inl AttributeError"
proof -
  have 1: "build_suggestion_cards pd empty_table [] = Inr [NoData]"
    by (simp add: build_suggestion_cards_def empty_table_def)
  have 2: "compute_pareto empty_table = Inr []"
    by (simp add: compute_pareto_empty empty_table_def)
  have "rows (row_filter empty_table) = []"
    by (simp add: row_filter_def empty_table_def)
  then have "rows (analysed pd empty_table) = []"
    using analysed_length [where df = empty_table and pd = pd] by simp
  then have cp: "compute_pareto (analysed pd empty_table) = Inr []"
    by (rule compute_pareto_empty)
  have "''Profit'' \<notin> set (columns empty_table) \<union> set zcols \<union> {''Score_Weighted''}"
    by (simp add: empty_table_def zcols_eval)
  with analysed_columns(3) [where df = empty_table and pd = pd]
  have "''Profit'' \<notin> set (columns (analysed pd empty_table))" by blast
  then have "''Profit'' \<notin> set (columns (setitem (analysed pd empty_table) ''Is_Pareto'' []))"
    by (simp add: columns_setitem)
  then have 3: "generate_report pd empty_table [] = Inl AttributeError"
    by (simp add: generate_report_eq cp summarise_absent)
  from 1 2 3 show ?thesis by simp
qed

section \<open>Normalizer\<close>

lemma zscore_degenerate:
  assumes "std_of pd (map coerce series) = None \<or> std_of pd (map coerce series) = Some 0"
  shows "zscore pd series = replicate (length series) (Some 0)"
  using assms by (auto simp add: zscore_def)

lemma zscore_standardized:
  assumes "std_of pd (map coerce series) = Some sd" "sd \<noteq> 0"
    and "mean_of pd (map coerce series) = Some m"
    and "i < length series" "coerce (series ! i) = Some v"
  shows "zscore pd series ! i = Some ((v - m) / sd)"
  using assms by (simp add: zscore_def fdiv_def)

text \<open>
  Without rounding, the sample standard deviation is undefined exactly for fewer
  than two numbers, and is 0 for the constant column.
\<close>

lemma exact_std_undefined_iff: "exact_std s = None \<longleftrightarrow> length (dropna s) < 2"
  by (simp add: exact_std_def Let_def)

lemma constant_column_exact:
  "exact_std (map coerce constant_column) = Some 0 \<and>
   zscore ideal_pandas constant_column = [Some 0, Some 0, Some 0]"
proof -
  have s: "exact_std (map coerce constant_column) = Some 0"
    by (simp add: exact_std_def constant_column_def)
  then have "std_of ideal_pandas (map coerce constant_column) = Some 0"
    by (simp add: ideal_pandas_def)
  then have "zscore ideal_pandas constant_column = replicate (length constant_column) (Some 0)"
    by (intro zscore_degenerate) simp
  with s show ?thesis by (simp add: constant_column_def)
qed

section \<open>Step formatting\<close>

lemma format_step_loop_upt:
  "format_step_loop v [k..<n] =
     (if \<exists>d. k \<le> d \<and> d < n \<and> within_tolerance v d
      then py_round v (LEAST d. k \<le> d \<and> d < n \<and> within_tolerance v d)
      else py_round v 6)"
proof (induction "n - k" arbitrary: k)
  case 0
  then have nk: "n \<le> k" by simp
  then have "[k..<n] = []" by simp
  moreover from nk have "\<not> (\<exists>d. k \<le> d \<and> d < n \<and> within_tolerance v d)" by auto
  ultimately show ?case by (simp only: format_step_loop.simps if_False)
next
  case (Suc m)
  then have kn: "k < n" and m: "m = n - Suc k" by auto
  from kn have unfold: "[k..<n] = k # [Suc k..<n]" by (rule upt_conv_Cons)
  show ?case
  proof (cases "within_tolerance v k")
    case True
    with kn have "(LEAST d. k \<le> d \<and> d < n \<and> within_tolerance v d) = k"
      by (intro Least_equality) auto
    moreover from True kn have "\<exists>d. k \<le> d \<and> d < n \<and> within_tolerance v d" by auto
    ultimately show ?thesis
      using True by (simp add: unfold Let_def within_tolerance_def)
  next
    case False
    have "(k \<le> d \<and> d < n \<and> within_tolerance v d) = (Suc k \<le> d \<and> d < n \<and> within_tolerance v d)"
      for d
      using False by (cases "d = k") auto
    then have eq: "(\<lambda>d. k \<le> d \<and> d < n \<and> within_tolerance v d) =
        (\<lambda>d. Suc k \<le> d \<and> d < n \<and> within_tolerance v d)"
      by (rule ext)
    from False have "format_step_loop v [k..<n] = format_step_loop v [Suc k..<n]"
      by (simp add: unfold Let_def within_tolerance_def)
    also note Suc.hyps(1) [OF m]
    finally show ?thesis by (simp only: eq)
  qed
qed

lemma round_half_even_int [simp]: "round_half_even (of_int n) = n"
  by (simp add: round_half_even_def)

text \<open>
  C7. \<^verbatim>\<open>format_step\<close> of a value returns it rounded to the smallest number of
  digits from 0 to 8 that reconstructs it within 1e-10, and rounded to 6 digits
  when there is none; 0.020000000000000018 gives 0.02 and 1.0 gives 1.
\<close>

theorem format_step_smallest_digits:
  "format_step (Some v) =
     Some (if \<exists>d<9. \<bar>py_round v d - v\<bar> < 1 / 10 ^ 10
           then py_round v (LEAST d. d < 9 \<and> \<bar>py_round v d - v\<bar> < 1 / 10 ^ 10)
           else py_round v 6) \<and>
   format_step (Some (20000000000000018 / 10 ^ 18)) = Some (2 / 100) \<and>
   format_step (Some 1) = Some 1"
proof (intro conjI)
  show "format_step (Some v) =
     Some (if \<exists>d<9. \<bar>py_round v d - v\<bar> < 1 / 10 ^ 10
           then py_round v (LEAST d. d < 9 \<and> \<bar>py_round v d - v\<bar> < 1 / 10 ^ 10)
           else py_round v 6)"
    using format_step_loop_upt [of v 0 9]
    by (simp only: format_step.simps within_tolerance_def le0 simp_thms)
next
  show "format_step (Some (20000000000000018 / 10 ^ 18)) = Some (2 / 100)"
    by (simp add: upt_rec py_round_def round_half_even_def Let_def)
next
  show "format_step (Some 1) = Some 1"
    by (simp add: upt_rec py_round_def round_half_even_def Let_def)
qed

section \<open>Scorer and recomputation\<close>

lemma coerce_float_cell [simp]: "coerce (float_cell x) = x"
  by (cases x) auto

lemma map_zip_update:
  "map (\<lambda>(r, v). r(n := v)) (zip xs (map f xs)) = map (\<lambda>r. r(n := f r)) xs"
  by (induction xs) auto

lemma rows_compute_default_score:
  "rows (compute_default_score df) =
     map (\<lambda>r. r(''Score_Weighted'' := float_cell (default_score (columns df) r))) (rows df)"
  by (simp add: compute_default_score_def setitem_def map_zip_update)

lemma metric_names:
  assumes "m \<in> set METRIC_DEF"
  shows "fst (snd m) \<noteq> ''Score_Weighted''" "snd (snd m) \<noteq> ''Score_Weighted''"
  using assms by (auto simp add: METRIC_DEF_def)

lemma metrics_config_scored:
  "metrics_config (compute_default_score df) = metrics_config df"
  unfolding metrics_config_def
  by (rule filter_cong) (auto simp add: compute_default_score_columns dest: metric_names)

lemma map_of_input_weights:
  "map_of (input_weights config ws) k =
     map_option (\<lambda>v. if k \<in> set (map fst config) then v else 0) (map_of ws k)"
  by (induction ws) (simp_all add: input_weights_def case_prod_beta)

lemma recompute_step_alt:
  "recompute_step ws r s m =
     (case coerce (r (snd (snd m))) of
        None \<Rightarrow> s
      | Some z \<Rightarrow> s + (case map_of ws (fst m) of None \<Rightarrow> 0 | Some v \<Rightarrow> v) * z)"
  by (cases m; cases "coerce (r (snd (snd m)))") (simp_all add: Let_def)

lemma default_score_fold:
  "default_score cols r =
     foldl (\<lambda>acc m. if snd (snd m) \<in> set cols
                     then fadd acc (fmul (default_weight (fst m)) (coerce (r (snd (snd m)))))
                     else acc) (Some 0) METRIC_DEF"
  by (simp add: default_score_def DEFAULT_WEIGHTS_def METRIC_DEF_def default_weight_def)

lemma recompute_fold:
  assumes "set xs \<subseteq> set METRIC_DEF"
  shows "foldl (recompute_step (input_weights (filter P METRIC_DEF) DEFAULT_WEIGHTS) r) a (filter P xs) =
     foldl (\<lambda>s m. if P m then (case coerce (r (snd (snd m))) of
                                  None \<Rightarrow> s
                                | Some z \<Rightarrow> s + default_weight (fst m) * z)
                   else s) a xs"
  using assms
proof (induction xs arbitrary: a)
  case Nil
  show ?case by simp
next
  case (Cons m ms)
  show ?case
  proof (cases "P m")
    case False
    with Cons show ?thesis by simp
  next
    case True
    with Cons.prems have "fst m \<in> set (map fst (filter P METRIC_DEF))"
      by force
    then have "(case map_of (input_weights (filter P METRIC_DEF) DEFAULT_WEIGHTS) (fst m) of
        None \<Rightarrow> 0 | Some v \<Rightarrow> v) = default_weight (fst m)"
      by (simp add: map_of_input_weights default_weight_def split: option.splits)
    with True Cons show ?thesis
      by (simp add: recompute_step_alt split: option.splits)
  qed
qed

lemma folds_agree:
  assumes "\<forall>m \<in> set ms. snd (snd m) \<in> set cols \<longrightarrow>
             fst (snd m) \<in> set cols \<and> coerce (r (snd (snd m))) \<noteq> None"
  shows "foldl (\<lambda>acc m. if snd (snd m) \<in> set cols
                        then fadd acc (fmul (default_weight (fst m)) (coerce (r (snd (snd m)))))
                        else acc) (Some a) ms =
         Some (foldl (\<lambda>s m. if fst (snd m) \<in> set cols \<and> snd (snd m) \<in> set cols
                            then (case coerce (r (snd (snd m))) of
                                    None \<Rightarrow> s
                                  | Some z \<Rightarrow> s + default_weight (fst m) * z)
                            else s) a ms)"
  using assms
proof (induction ms arbitrary: a)
  case Nil
  show ?case by simp
next
  case (Cons m ms)
  show ?case
  proof (cases "snd (snd m) \<in> set cols")
    case False
    with Cons show ?thesis by simp
  next
    case True
    with Cons.prems obtain z where "fst (snd m) \<in> set cols" "coerce (r (snd (snd m))) = Some z"
      by auto
    with True Cons show ?thesis by simp
  qed
qed

lemma metrics_config_filter:
  "metrics_config df =
     filter (\<lambda>m. fst (snd m) \<in> set (columns df) \<and> snd (snd m) \<in> set (columns df)) METRIC_DEF"
  unfolding metrics_config_def by (rule filter_cong) auto

lemma row_score_agrees:
  assumes "\<forall>m \<in> set METRIC_DEF. snd (snd m) \<in> set (columns df) \<longrightarrow>
             fst (snd m) \<in> set (columns df) \<and> coerce (r (snd (snd m))) \<noteq> None"
  shows "default_score (columns df) r =
     Some (foldl (recompute_step (input_weights (metrics_config df) DEFAULT_WEIGHTS) r) 0
            (metrics_config df))"
  unfolding metrics_config_filter default_score_fold
  by (subst recompute_fold) (simp_all add: folds_agree [OF assms])

lemma recompute_ignores_score:
  assumes "set xs \<subseteq> set METRIC_DEF"
  shows "foldl (recompute_step ws (r(''Score_Weighted'' := v))) a xs = foldl (recompute_step ws r) a xs"
  using assms
proof (induction xs arbitrary: a)
  case Nil
  show ?case by simp
next
  case (Cons m ms)
  obtain key col zcol where m: "m = (key, col, zcol)" by (cases m) auto
  with Cons.prems have "zcol \<noteq> ''Score_Weighted''"
    using metric_names(2) [of m] by simp
  with Cons show ?case by (simp add: m)
qed

lemma recomputeScores_scored:
  "recomputeScores (metrics_config (compute_default_score df)) DEFAULT_WEIGHTS
     (rows (compute_default_score df)) =
   map (\<lambda>r. foldl (recompute_step (input_weights (metrics_config df) DEFAULT_WEIGHTS) r) 0
              (metrics_config df)) (rows df)"
proof -
  have "set (metrics_config df) \<subseteq> set METRIC_DEF"
    by (auto simp add: metrics_config_def)
  then show ?thesis
    by (simp add: recomputeScores_def metrics_config_scored rows_compute_default_score
        comp_def recompute_ignores_score)
qed

lemma persisted_scores:
  "map (\<lambda>r. coerce (r ''Score_Weighted'')) (rows (compute_default_score df)) =
   map (default_score (columns df)) (rows df)"
  by (simp add: rows_compute_default_score comp_def)

text \<open>
  On a table in which every derived column has its source column and every
  standardized value is a number, the persisted score of each row equals the
  score that \<^verbatim>\<open>recomputeScores\<close> computes with the default weights from the
  persisted rows.
\<close>

lemma default_score_matches_recomputation:
  assumes "\<forall>m \<in> set METRIC_DEF. snd (snd m) \<in> set (columns df) \<longrightarrow>
             fst (snd m) \<in> set (columns df)"
    and "\<forall>r \<in> set (rows df). \<forall>m \<in> set METRIC_DEF. snd (snd m) \<in> set (columns df) \<longrightarrow>
             coerce (r (snd (snd m))) \<noteq> None"
  shows "map (\<lambda>r. coerce (r ''Score_Weighted'')) (rows (compute_default_score df)) =
         map Some (recomputeScores (metrics_config (compute_default_score df)) DEFAULT_WEIGHTS
                    (rows (compute_default_score df)))"
proof -
  have "default_score (columns df) r =
      Some (foldl (recompute_step (input_weights (metrics_config df) DEFAULT_WEIGHTS) r) 0
             (metrics_config df))"
    if "r \<in> set (rows df)" for r
    using assms that by (intro row_score_agrees) blast
  then show ?thesis
    by (simp add: persisted_scores recomputeScores_scored comp_def)
qed

lemma full_z_table_scores:
  "map (\<lambda>r. coerce (r ''Score_Weighted'')) (rows (compute_default_score full_z_table)) =
     map Some (recomputeScores (metrics_config (compute_default_score full_z_table))
                 DEFAULT_WEIGHTS (rows (compute_default_score full_z_table))) \<and>
   map (\<lambda>r. coerce (r ''Score_Weighted'')) (rows (compute_default_score full_z_table)) =
     [Some (1 / 10)]"
proof -
  have 1: "\<forall>m \<in> set METRIC_DEF. snd (snd m) \<in> set (columns full_z_table) \<longrightarrow>
             fst (snd m) \<in> set (columns full_z_table)"
    by (simp add: METRIC_DEF_def full_z_table_def)
  have 2: "\<forall>r \<in> set (rows full_z_table). \<forall>m \<in> set METRIC_DEF.
             snd (snd m) \<in> set (columns full_z_table) \<longrightarrow> coerce (r (snd (snd m))) \<noteq> None"
    by (simp add: METRIC_DEF_def full_z_table_def mk_row_def)
  have 3: "map (\<lambda>r. coerce (r ''Score_Weighted'')) (rows (compute_default_score full_z_table)) =
      [Some (1 / 10)]"
    by (subst persisted_scores)
      (simp add: default_score_fold METRIC_DEF_def full_z_table_def
        mk_row_def default_weight_def DEFAULT_WEIGHTS_def)
  from default_score_matches_recomputation [OF 1 2] 3 show ?thesis by simp
qed

lemma gap_z_table_length: "length (rows gap_z_table) = 4"
  by (simp add: gap_z_table_def)

text \<open>
  C2. For the last row of the standardized table above, whose Sharpe ratio is
  missing, the persisted score is NaN, while \<^verbatim>\<open>recomputeScores\<close> leaves the NaN
  term out and gives 0.3 * 0.5 = 0.15: the two passes diverge.
\<close>

theorem nan_score_diverges:
  "map (\<lambda>r. coerce (r ''Score_Weighted'')) (rows (compute_default_score gap_z_table)) ! 3 = None \<and>
   recomputeScores (metrics_config (compute_default_score gap_z_table)) DEFAULT_WEIGHTS
      (rows (compute_default_score gap_z_table)) ! 3 = 15 / 100 \<and>
   map (\<lambda>r. coerce (r ''Score_Weighted'')) (rows (compute_default_score gap_z_table)) \<noteq>
   map Some (recomputeScores (metrics_config (compute_default_score gap_z_table))
      DEFAULT_WEIGHTS (rows (compute_default_score gap_z_table)))"
proof -
  let ?py = "map (\<lambda>r. coerce (r ''Score_Weighted'')) (rows (compute_default_score gap_z_table))"
  let ?js = "recomputeScores (metrics_config (compute_default_score gap_z_table)) DEFAULT_WEIGHTS
      (rows (compute_default_score gap_z_table))"
  have r3: "rows gap_z_table ! 3 =
      mk_row [(''Profit'', Num 4), (''Sharpe Ratio'', Missing),
              (''z_profit'', Num (1 / 2)), (''z_sharpe_ratio'', Missing)]"
    by (simp add: gap_z_table_def)
  have c: "columns gap_z_table = [''Profit'', ''Sharpe Ratio'', ''z_profit'', ''z_sharpe_ratio'']"
    by (simp add: gap_z_table_def)
  have 1: "?py ! 3 = None"
    by (subst persisted_scores)
      (simp add: gap_z_table_length r3 c default_score_fold METRIC_DEF_def mk_row_def)
  have 2: "?js ! 3 = 15 / 100"
    by (subst recomputeScores_scored)
      (simp add: gap_z_table_length r3 c metrics_config_filter METRIC_DEF_def mk_row_def
        input_weights_def DEFAULT_WEIGHTS_def)
  have "length ?js = 4"
    by (simp add: recomputeScores_def rows_compute_default_score gap_z_table_length)
  then have "map Some ?js ! 3 = Some (15 / 100)"
    using 2 by simp
  with 1 have "?py \<noteq> map Some ?js" by auto
  with 1 2 show ?thesis by simp
qed

text \<open>
  The standardized columns of that table are what the Normalizer computes from
  its source columns.
\<close>

lemma gap_table_standardized:
  "zscore ideal_pandas (getitem gap_table ''Profit'') =
     [Some (- (3 / 2)), Some (1 / 2), Some (1 / 2), Some (1 / 2)] \<and>
   zscore ideal_pandas (getitem gap_table ''Sharpe Ratio'') = [Some (- 1), Some 0, Some 1, None]"
proof -
  have "sqrt 4 = 2" using real_sqrt_abs [of 2] by simp
  then show ?thesis
    by (simp add: zscore_def ideal_pandas_def exact_std_def exact_mean_def fdiv_def
        gap_table_def getitem_def mk_row_def power2_eq_square)
qed

section \<open>Recommendation engine\<close>

lemma goes_before_total: "goes_before a b \<or> goes_before b a"
  by (cases a; cases b) auto

lemma goes_before_trans: "goes_before a b \<Longrightarrow> goes_before b c \<Longrightarrow> goes_before a c"
  by (cases a; cases b; cases c) auto

lemma sorted_rows_mset:
  assumes "sorts_descending pd"
  shows "mset (sorted_rows pd df col) = mset (rows df)"
proof -
  let ?keys = "map (\<lambda>r. coerce (r col)) (rows df)"
  from assms have "mset (argsort_desc pd ?keys) = mset [0..<length (rows df)]"
    by (simp add: sorts_descending_def)
  then have "mset (map (\<lambda>i. rows df ! i) (argsort_desc pd ?keys)) =
      mset (map (\<lambda>i. rows df ! i) [0..<length (rows df)])"
    by (metis mset_map)
  then show ?thesis by (simp add: sorted_rows_def map_nth)
qed

lemma sorted_rows_sorted:
  assumes "sorts_descending pd"
  shows "sorted_wrt (\<lambda>a b. goes_before (coerce (a col)) (coerce (b col))) (sorted_rows pd df col)"
proof -
  let ?keys = "map (\<lambda>r. coerce (r col)) (rows df)"
  let ?p = "argsort_desc pd ?keys"
  from assms have m: "mset ?p = mset [0..<length (rows df)]"
    and s: "sorted_wrt (\<lambda>i j. goes_before (?keys ! i) (?keys ! j)) ?p"
    by (simp_all add: sorts_descending_def)
  from m have "set ?p = set [0..<length (rows df)]" by (rule mset_eq_setD)
  then have in_range: "i < length (rows df)" if "i \<in> set ?p" for i
    using that by simp
  have "sorted_wrt (\<lambda>i j. goes_before (coerce ((rows df ! i) col)) (coerce ((rows df ! j) col))) ?p"
    using s by (rule sorted_wrt_mono_rel [rotated]) (simp add: in_range)
  then show ?thesis by (simp add: sorted_rows_def sorted_wrt_map)
qed

lemma sort_values_desc_present:
  "col \<in> set (columns df) \<Longrightarrow>
   sort_values_desc pd df col = Inr (df\<lparr>rows := sorted_rows pd df col\<rparr>)"
  by (simp add: sort_values_desc_def)

text \<open>The stable order is such an order.\<close>

lemma mset_insert_key: "mset (insert_key x xs) = add_mset x (mset xs)"
  by (induction xs) auto

lemma set_insert_key: "set (insert_key x xs) = insert x (set xs)"
  by (induction xs) auto

lemma sorted_insert_key:
  assumes "sorted_wrt (\<lambda>a b. goes_before (snd a) (snd b)) xs"
  shows "sorted_wrt (\<lambda>a b. goes_before (snd a) (snd b)) (insert_key x xs)"
  using assms
proof (induction xs)
  case Nil
  show ?case by simp
next
  case (Cons y ys)
  show ?case
  proof (cases "goes_before (snd x) (snd y)")
    case True
    with Cons.prems show ?thesis
      by (auto intro: goes_before_trans)
  next
    case False
    with goes_before_total have "goes_before (snd y) (snd x)" by blast
    with False Cons show ?thesis
      by (auto simp add: set_insert_key)
  qed
qed

lemma mset_insertion_sort: "mset (foldr insert_key xs []) = mset xs"
  by (induction xs) (auto simp add: mset_insert_key)

lemma sorted_insertion_sort:
  "sorted_wrt (\<lambda>a b. goes_before (snd a) (snd b)) (foldr insert_key xs [])"
  by (induction xs) (auto simp add: sorted_insert_key)

lemma ideal_sorts_descending: "sorts_descending ideal_pandas"
proof -
  have "mset (stable_argsort_desc keys) = mset [0..<length keys] \<and>
      sorted_wrt (\<lambda>i j. goes_before (keys ! i) (keys ! j)) (stable_argsort_desc keys)" for keys
  proof
    let ?ps = "zip [0..<length keys] keys"
    let ?l = "foldr insert_key ?ps []"
    have "mset (map fst ?l) = mset (map fst ?ps)"
      using mset_insertion_sort [of ?ps] by (metis mset_map)
    then show "mset (stable_argsort_desc keys) = mset [0..<length keys]"
      by (simp add: stable_argsort_desc_def)
    have "set ?l = set ?ps"
      using mset_insertion_sort [of ?ps] by (rule mset_eq_setD)
    then have key: "snd a = keys ! fst a" if "a \<in> set ?l" for a
      using that by (auto simp add: set_zip)
    have "sorted_wrt (\<lambda>a b. goes_before (keys ! fst a) (keys ! fst b)) ?l"
      using sorted_insertion_sort [of ?ps]
      by (rule sorted_wrt_mono_rel [rotated]) (simp add: key)
    then show "sorted_wrt (\<lambda>i j. goes_before (keys ! i) (keys ! j)) (stable_argsort_desc keys)"
      by (simp add: stable_argsort_desc_def sorted_wrt_map)
  qed
  then show ?thesis by (simp add: sorts_descending_def ideal_pandas_def)
qed

lemma pretty_param_str_ok:
  "set ps \<subseteq> set cols \<Longrightarrow> pretty_param_str cols r ps = Inr (map (\<lambda>col. (strip_inp col, r col)) ps)"
  by (auto simp add: pretty_param_str_def)

lemma describe_row_ok: "set ps \<subseteq> set cols \<Longrightarrow> \<exists>shown. describe_row cols r ps = Inr shown"
  by (simp add: describe_row_def pretty_param_str_ok)

lemma restrict_nonempty:
  assumes "cand \<noteq> []" and "length keep = length cand"
  shows "restrict cand keep \<noteq> []"
proof (cases "True \<in> set keep")
  case False
  with assms show ?thesis by (simp add: restrict_def)
next
  case True
  then obtain i where i: "i < length keep" "keep ! i" by (auto simp add: in_set_conv_nth)
  with assms(2) have "(cand ! i, True) \<in> set (zip cand keep)"
    by (auto simp add: set_zip)
  then have "filter snd (zip cand keep) \<noteq> []"
    by (force simp add: filter_empty_conv)
  with True show ?thesis by (simp add: restrict_def)
qed

lemma idxmax_ok: "xs \<noteq> [] \<Longrightarrow> \<exists>r. idxmax xs = Inr r"
  by (cases xs) (auto simp add: idxmax_def)

lemma idxmin_ok: "xs \<noteq> [] \<Longrightarrow> \<exists>r. idxmin xs = Inr r"
  by (cases xs) (auto simp add: idxmin_def)

lemma aggressive_card_ok:
  assumes "rows df \<noteq> []" "length profit = length (rows df)" "length trades = length (rows df)"
    and "set ps \<subseteq> set (columns df)"
  shows "\<exists>shown. aggressive_card df ps profit trades = Inr (Aggressive shown)"
proof -
  have "restrict (zip (rows df) profit) (map (\<lambda>t. t \<ge> 10) trades) \<noteq> []"
    using assms by (intro restrict_nonempty) auto
  from idxmax_ok [OF this] obtain r where
    "idxmax (restrict (zip (rows df) profit) (map (\<lambda>t. t \<ge> 10) trades)) = Inr r" by blast
  moreover from describe_row_ok [OF assms(4)] obtain shown where
    "describe_row (columns df) r ps = Inr shown" by blast
  ultimately show ?thesis by (simp add: aggressive_card_def)
qed

lemma conservative_card_ok:
  assumes "rows df \<noteq> []" "length profit = length (rows df)" "length sharpe = length (rows df)"
    "length dd = length (rows df)" and "set ps \<subseteq> set (columns df)"
  shows "\<exists>shown. conservative_card df ps profit sharpe dd = Inr (Conservative shown)"
proof -
  have "restrict (zip (rows df) dd) (map (\<lambda>(p, s). p > 0 \<and> s > 0) (zip profit sharpe)) \<noteq> []"
    using assms by (intro restrict_nonempty) auto
  from idxmin_ok [OF this] obtain r where
    "idxmin (restrict (zip (rows df) dd) (map (\<lambda>(p, s). p > 0 \<and> s > 0) (zip profit sharpe))) = Inr r"
    by blast
  moreover from describe_row_ok [OF assms(5)] obtain shown where
    "describe_row (columns df) r ps = Inr shown" by blast
  ultimately show ?thesis by (simp add: conservative_card_def)
qed

lemma balanced_card_ok:
  assumes "rows df \<noteq> []" "''Score_Weighted'' \<in> set (columns df)" "set ps \<subseteq> set (columns df)"
    and "sorts_descending pd"
  shows "\<exists>shown. balanced_card pd df ps = Inr (Balanced shown)"
proof -
  have "mset (sorted_rows pd df ''Score_Weighted'') \<noteq> {#}"
    using assms(1) by (simp add: sorted_rows_mset [OF assms(4)])
  then obtain r rs where "sorted_rows pd df ''Score_Weighted'' = r # rs"
    by (cases "sorted_rows pd df ''Score_Weighted''") auto
  moreover from describe_row_ok [OF assms(3)] obtain shown where
    "describe_row (columns df) r ps = Inr shown" by blast
  ultimately show ?thesis
    using assms(2) by (simp add: balanced_card_def sort_values_desc_present)
qed

lemma range_lines_eq:
  "set ps \<subseteq> set (columns top_df) \<Longrightarrow>
   range_lines top_df ps =
     Inr (map (\<lambda>p. (strip_inp p, quantile (numeric_values top_df p) (25 / 100),
                      quantile (numeric_values top_df p) (75 / 100)))
            (filter (\<lambda>p. numeric_values top_df p \<noteq> []) ps))"
  by (induction ps) (auto simp add: numeric_values_def Let_def)

lemma stable_range_card_eq:
  assumes "''Score_Weighted'' \<in> set (columns df)" "set ps \<subseteq> set (columns df)"
  shows "stable_range_card pd df ps =
     (let top_df = head (df\<lparr>rows := sorted_rows pd df ''Score_Weighted''\<rparr>)
                  (max 10 (length (rows df) div 5));
          lines = map (\<lambda>p. (strip_inp p, quantile (numeric_values top_df p) (25 / 100),
                              quantile (numeric_values top_df p) (75 / 100)))
                    (filter (\<lambda>p. numeric_values top_df p \<noteq> []) ps)
      in Inr (StableRange (if lines \<noteq> [] then Ranges lines else NoStableRange)))"
proof -
  have "set ps \<subseteq> set (columns (head (df\<lparr>rows := sorted_rows pd df ''Score_Weighted''\<rparr>)
      (max 10 (length (rows df) div 5))))"
    using assms(2) by (simp add: head_def)
  from range_lines_eq [OF this] assms(1) show ?thesis
    by (simp add: stable_range_card_def sort_values_desc_present Let_def)
qed

lemma objective_length: "objective df c = Inr v \<Longrightarrow> length v = length (rows df)"
  by (cases "c \<in> set (columns df)") (auto simp add: objective_present objective_absent)

lemma build_suggestion_cards_ok:
  assumes "rows df \<noteq> []"
    and "{''Profit'', ''Sharpe Ratio'', ''Equity DD %'', ''Trades'', ''Score_Weighted''}
           \<subseteq> set (columns df)"
    and "set ps \<subseteq> set (columns df)"
    and "stable_range_card pd df ps = Inr c4"
    and "sorts_descending pd"
  shows "\<exists>s1 s2 s3. build_suggestion_cards pd df ps =
            Inr [Aggressive s1, Balanced s2, Conservative s3, c4]"
proof -
  let ?v = "\<lambda>c. map (\<lambda>r. num0 (r c)) (rows df)"
  from aggressive_card_ok [of df "?v ''Profit''" "?v ''Trades''" ps] assms(1,3)
  obtain s1 where 1: "aggressive_card df ps (?v ''Profit'') (?v ''Trades'') = Inr (Aggressive s1)"
    by auto
  from balanced_card_ok [of df ps pd] assms(1,2,3,5)
  obtain s2 where 2: "balanced_card pd df ps = Inr (Balanced s2)" by auto
  from conservative_card_ok [of df "?v ''Profit''" "?v ''Sharpe Ratio''" "?v ''Equity DD %''" ps]
    assms(1,3)
  obtain s3 where 3: "conservative_card df ps (?v ''Profit'') (?v ''Sharpe Ratio'')
      (?v ''Equity DD %'') = Inr (Conservative s3)"
    by auto
  from assms(1,2) 1 2 3 assms(4) show ?thesis
    by (simp add: build_suggestion_cards_def objective_present)
qed

lemma goes_before_iff:
  "goes_before a b \<longleftrightarrow> b = None \<or> (\<exists>x y. a = Some x \<and> b = Some y \<and> y \<le> x)"
  by (cases a; cases b) auto

text \<open>
  On a non-empty scored table that has the objective columns, the trade counts
  and the parameter columns, the fourth card is built from the first max(10, n div 5) rows
  of the rows put in descending order of score (NaN last): for each parameter with
  a numeric value among them it holds the 25th and 75th percentile of those
  values, parameters without one are skipped, and when no parameter is left the
  body is the fallback message.
\<close>

lemma stable_range_from_top_rows:
  assumes "rows df \<noteq> []"
    and "{''Profit'', ''Sharpe Ratio'', ''Equity DD %'', ''Trades'', ''Score_Weighted''}
           \<subseteq> set (columns df)"
    and "set ps \<subseteq> set (columns df)"
    and "sorts_descending pd"
  shows "\<exists>s1 s2 s3 sorted top_df.
     mset sorted = mset (rows df) \<and>
     sorted_wrt (\<lambda>a b. score_of b = None \<or>
                   (\<exists>x y. score_of a = Some x \<and> score_of b = Some y \<and> y \<le> x)) sorted \<and>
     top_df = \<lparr>columns = columns df,
               rows = take (max 10 (length (rows df) div 5)) sorted\<rparr> \<and>
     build_suggestion_cards pd df ps =
       Inr [Aggressive s1, Balanced s2, Conservative s3,
            StableRange
              (if \<exists>p \<in> set ps. numeric_values top_df p \<noteq> []
               then Ranges (map (\<lambda>p. (strip_inp p,
                                       quantile (numeric_values top_df p) (25 / 100),
                                       quantile (numeric_values top_df p) (75 / 100)))
                             (filter (\<lambda>p. numeric_values top_df p \<noteq> []) ps))
               else NoStableRange)]"
proof -
  define sorted where "sorted = sorted_rows pd df ''Score_Weighted''"
  define top_df where
    "top_df = \<lparr>columns = columns df, rows = take (max 10 (length (rows df) div 5)) sorted\<rparr>"
  have top: "head (df\<lparr>rows := sorted\<rparr>) (max 10 (length (rows df) div 5)) = top_df"
    by (simp add: head_def top_df_def)
  have m: "mset sorted = mset (rows df)"
    by (simp add: sorted_def sorted_rows_mset [OF assms(4)])
  have s: "sorted_wrt (\<lambda>a b. score_of b = None \<or>
                   (\<exists>x y. score_of a = Some x \<and> score_of b = Some y \<and> y \<le> x)) sorted"
    using sorted_rows_sorted [OF assms(4), of "''Score_Weighted''" df]
    by (simp add: sorted_def score_of_def goes_before_iff)
  have e: "(filter (\<lambda>p. numeric_values top_df p \<noteq> []) ps \<noteq> []) =
      (\<exists>p \<in> set ps. numeric_values top_df p \<noteq> [])"
    by (auto simp add: filter_empty_conv)
  from assms(2,3) have "stable_range_card pd df ps =
      Inr (StableRange
              (if \<exists>p \<in> set ps. numeric_values top_df p \<noteq> []
               then Ranges (map (\<lambda>p. (strip_inp p,
                                       quantile (numeric_values top_df p) (25 / 100),
                                       quantile (numeric_values top_df p) (75 / 100)))
                             (filter (\<lambda>p. numeric_values top_df p \<noteq> []) ps))
               else NoStableRange))"
    by (simp add: stable_range_card_eq Let_def sorted_def [symmetric] top e)
  from build_suggestion_cards_ok [OF assms(1-3) this assms(4)] m s top_df_def show ?thesis
    by blast
qed

lemma scored_scenario_order:
  "sorted_rows ideal_pandas scored_scenario ''Score_Weighted'' =
     [rows scored_scenario ! 1, rows scored_scenario ! 0, rows scored_scenario ! 2]"
  by (simp add: sorted_rows_def ideal_pandas_def stable_argsort_desc_def scored_scenario_def
      mk_row_def upt_rec)

lemma scored_scenario_stable_range:
  "stable_range_card ideal_pandas scored_scenario [''inpPeriod''] =
     Inr (StableRange (Ranges [(''Period'', 15, 25)]))"
proof -
  have c: "''Score_Weighted'' \<in> set (columns scored_scenario)"
    "set [''inpPeriod''] \<subseteq> set (columns scored_scenario)"
    by (simp_all add: scored_scenario_def)
  have v: "numeric_values
      (head (scored_scenario\<lparr>rows := sorted_rows ideal_pandas scored_scenario ''Score_Weighted''\<rparr>)
         (max 10 (length (rows scored_scenario) div 5))) ''inpPeriod'' = [20, 30, 10]"
    by (simp add: scored_scenario_order)
      (simp add: scored_scenario_def mk_row_def head_def numeric_values_def getitem_def)
  show ?thesis
    by (simp add: stable_range_card_eq [OF c] Let_def v quantile_def strip_inp_def)
qed

lemma scored_scenario_cards:
  "\<exists>s1 s2 s3. build_suggestion_cards ideal_pandas scored_scenario [''inpPeriod''] =
      Inr [Aggressive s1, Balanced s2, Conservative s3,
           StableRange (Ranges [(''Period'', 15, 25)])]"
proof -
  have 1: "rows scored_scenario \<noteq> []" by (simp add: scored_scenario_def)
  have 2: "{''Profit'', ''Sharpe Ratio'', ''Equity DD %'', ''Trades'', ''Score_Weighted''}
      \<subseteq> set (columns scored_scenario)" by (simp add: scored_scenario_def)
  have 3: "set [''inpPeriod''] \<subseteq> set (columns scored_scenario)"
    by (simp add: scored_scenario_def)
  from build_suggestion_cards_ok [OF 1 2 3 scored_scenario_stable_range ideal_sorts_descending]
  show ?thesis .
qed

text \<open>
  C8. On the scored scenario without its trade counts, a non-empty table, the
  Recommendation Engine raises \<^verbatim>\<open>AttributeError\<close> before it reaches the fourth
  card, whatever the library computes: no Stable Range card is built.
\<close>

theorem stable_range_absent_without_trades:
  "rows untraded_scenario \<noteq> [] \<and>
   build_suggestion_cards pd untraded_scenario [''inpPeriod''] = Inl AttributeError"
proof -
  have ne: "rows untraded_scenario \<noteq> []" by (simp add: untraded_scenario_def)
  have "build_suggestion_cards pd untraded_scenario [''inpPeriod''] = Inl AttributeError"
    by (rule build_suggestion_cards_absent [OF ne]) (simp add: untraded_scenario_def)
  with ne show ?thesis by simp
qed

section \<open>Row filter\<close>

lemma filter_zip_map:
  "map fst (filter (\<lambda>(r, t). P t) (zip xs (map f xs))) = filter (\<lambda>r. P (f r)) xs"
  by (induction xs) auto

lemma row_filter_present:
  "''Trades'' \<in> set (columns df) \<Longrightarrow>
   row_filter df = df\<lparr>rows := filter (\<lambda>r. num0 (r ''Trades'') > 0) (rows df)\<rparr>"
proof -
  have "fillna_series (map coerce (getitem df ''Trades'')) 0 = map (\<lambda>r. num0 (r ''Trades'')) (rows df)"
    by (simp add: fillna_series_def getitem_def num0_def comp_def)
  then show "''Trades'' \<in> set (columns df) \<Longrightarrow> ?thesis"
    by (simp add: row_filter_def filter_zip_map)
qed

lemma row_filter_absent: "''Trades'' \<notin> set (columns df) \<Longrightarrow> row_filter df = df"
  by (simp add: row_filter_def)

lemma row_filter_idem: "row_filter (row_filter df) = row_filter df"
proof (cases "''Trades'' \<in> set (columns df)")
  case True
  then have "''Trades'' \<in> set (columns (row_filter df))" by simp
  from row_filter_present [OF this] show ?thesis
    by (simp add: row_filter_present [OF True])
next
  case False
  then show ?thesis by (simp add: row_filter_absent)
qed

lemma analysed_row_filter: "analysed pd (row_filter df) = analysed pd df"
  by (simp add: analysed_def row_filter_idem)

lemma compute_pareto_length:
  assumes "compute_pareto df = Inr flags"
  shows "length flags = length (rows df)"
proof (cases "rows df = []")
  case True
  with assms show ?thesis by (simp add: compute_pareto_empty)
next
  case False
  have "{''Profit'', ''Sharpe Ratio'', ''Equity DD %''} \<subseteq> set (columns df)"
  proof (rule ccontr)
    assume "\<not> ?thesis"
    from compute_pareto_absent [OF False this] assms show False by simp
  qed
  then have "compute_pareto df = Inr (pareto_flags (objectives df))"
    by (intro compute_pareto_present) auto
  with assms show ?thesis
    by (auto simp add: pareto_flags_length objectives_def)
qed

lemma summarise_Inr:
  assumes "summarise pd df flags ps = Inr rep"
  shows "table rep = df" "pareto_flag rep = flags" "total_runs rep = length (rows df)"
    "build_suggestion_cards pd df ps = Inr (suggestion_cards rep)"
    "pareto_count rep = length (filter (\<lambda>b. b) flags)"
  using assms
  by (auto simp add: summarise_def then_do_def split: sum.splits)

lemma generate_report_Inr:
  assumes "generate_report pd df ps = Inr rep"
  shows "compute_pareto (analysed pd df) = Inr (pareto_flag rep)"
    and "table rep = setitem (analysed pd df) ''Is_Pareto'' (map Flag (pareto_flag rep))"
    and "total_runs rep = length (rows (row_filter df))"
    and "build_suggestion_cards pd (table rep) ps = Inr (suggestion_cards rep)"
    and "same_outside (set derived_cols) (row_filter df) (table rep)"
proof -
  from assms obtain flags where
    cp: "compute_pareto (analysed pd df) = Inr flags" and
    su: "summarise pd (setitem (analysed pd df) ''Is_Pareto'' (map Flag flags)) flags ps = Inr rep"
    by (auto simp add: generate_report_eq then_do_def split: sum.splits)
  note s = summarise_Inr [OF su]
  from s(2) cp show "compute_pareto (analysed pd df) = Inr (pareto_flag rep)" by simp
  from s(1,2) show t: "table rep = setitem (analysed pd df) ''Is_Pareto'' (map Flag (pareto_flag rep))"
    by simp
  from compute_pareto_length [OF cp] have len: "length (map Flag flags) = length (rows (analysed pd df))"
    by simp
  from same_outside_trans [OF analysed_same same_outside_setitem [OF len]] s(1)
  have "same_outside (set zcols \<union> {''Score_Weighted''} \<union> {''Is_Pareto''}) (row_filter df) (table rep)"
    by simp
  then show so: "same_outside (set derived_cols) (row_filter df) (table rep)"
    by (rule same_outside_mono) (auto simp add: derived_cols_def)
  from same_outside_length [OF so] s(1,3) show "total_runs rep = length (rows (row_filter df))"
    by simp
  from s(1,4) show "build_suggestion_cards pd (table rep) ps = Inr (suggestion_cards rep)" by simp
qed

lemma same_outside_forall:
  assumes "same_outside S a b" and "c \<notin> S" and "\<forall>r \<in> set (rows a). P (r c)"
  shows "\<forall>r \<in> set (rows b). P (r c)"
proof
  fix r'
  assume "r' \<in> set (rows b)"
  then obtain i where i: "i < length (rows b)" "rows b ! i = r'"
    by (auto simp add: in_set_conv_nth)
  with same_outside_length [OF assms(1)] have ia: "i < length (rows a)" by simp
  from same_outside_nth [OF assms(1) ia assms(2)] i have "r' c = (rows a ! i) c" by simp
  with assms(3) ia show "P (r' c)" by simp
qed

lemma trades_not_derived: "''Trades'' \<notin> set derived_cols"
  by (simp add: derived_cols_def zcols_eval)

lemma generate_report_total:
  assumes "{''Profit'', ''Sharpe Ratio'', ''Equity DD %'', ''Trades''} \<subseteq> set (columns df)"
    and "set ps \<subseteq> set (columns df)"
    and "sorts_descending pd"
  shows "\<exists>rep. generate_report pd df ps = Inr rep"
proof -
  from assms(1) analysed_columns(1) [where df = df and pd = pd]
  have c3: "{''Profit'', ''Sharpe Ratio'', ''Equity DD %''} \<subseteq> set (columns (analysed pd df))"
    by auto
  then obtain flags where cp: "compute_pareto (analysed pd df) = Inr flags"
    using compute_pareto_present [of "analysed pd df"] by auto
  let ?t = "setitem (analysed pd df) ''Is_Pareto'' (map Flag flags)"
  have cols: "set (columns df) \<union> {''Score_Weighted''} \<subseteq> set (columns ?t)"
    using analysed_columns(1,2) [where df = df and pd = pd] by (auto simp add: columns_setitem)
  from compute_pareto_length [OF cp]
  have len: "length (rows ?t) = length (rows (analysed pd df))"
    by (intro same_outside_length [OF same_outside_setitem]) simp
  from cols assms(1) have p: "objective ?t ''Profit'' =
      Inr (map (\<lambda>r. num0 (r ''Profit'')) (rows ?t))"
    by (intro objective_present) auto
  from cols assms(2) obtain rs where pr: "param_ranges_of ?t ps = Inr rs"
    using param_ranges_of_ok [of ps ?t] by auto
  have "\<exists>cards. build_suggestion_cards pd ?t ps = Inr cards"
  proof (cases "rows ?t = []")
    case True
    then show ?thesis by (simp add: build_suggestion_cards_def)
  next
    case False
    from cols assms have 1: "{''Profit'', ''Sharpe Ratio'', ''Equity DD %'', ''Trades'',
        ''Score_Weighted''} \<subseteq> set (columns ?t)" and 2: "set ps \<subseteq> set (columns ?t)"
      by auto
    from 1 2 obtain c4 where "stable_range_card pd ?t ps = Inr c4"
      by (auto simp add: stable_range_card_eq Let_def)
    from build_suggestion_cards_ok [OF False 1 2 this assms(3)] show ?thesis by blast
  qed
  then obtain cards where "build_suggestion_cards pd ?t ps = Inr cards" by blast
  with cp p pr show ?thesis
    by (simp add: generate_report_eq summarise_def)
qed

text \<open>
  C6. With a \<^verbatim>\<open>Trades\<close> column the filtered table holds exactly the rows whose
  coerced trade count is positive; without it the filtered table is the input
  table. The report of a table is the report of its filtered table: the table of
  the report, its Pareto flags, its row count and its cards are computed from the
  filtered rows, and every row of the report's table has a positive trade count.
\<close>

theorem row_filter_invariant:
  "(''Trades'' \<in> set (columns df) \<longrightarrow>
      rows (row_filter df) = filter (\<lambda>r. num0 (r ''Trades'') > 0) (rows df) \<and>
      columns (row_filter df) = columns df) \<and>
   (''Trades'' \<notin> set (columns df) \<longrightarrow> row_filter df = df) \<and>
   generate_report pd df ps = generate_report pd (row_filter df) ps \<and>
   (\<forall>rep. generate_report pd df ps = Inr rep \<longrightarrow>
      table rep = setitem (compute_default_score (add_z_scores pd (row_filter df))) ''Is_Pareto''
                    (map Flag (pareto_flag rep)) \<and>
      compute_pareto (compute_default_score (add_z_scores pd (row_filter df))) =
        Inr (pareto_flag rep) \<and>
      build_suggestion_cards pd (table rep) ps = Inr (suggestion_cards rep) \<and>
      total_runs rep = length (rows (row_filter df)) \<and>
      length (rows (table rep)) = length (rows (row_filter df)) \<and>
      (''Trades'' \<in> set (columns df) \<longrightarrow>
         (\<forall>r \<in> set (rows (table rep)). num0 (r ''Trades'') > 0)))"
proof (intro conjI impI allI)
  assume "''Trades'' \<in> set (columns df)"
  then show "rows (row_filter df) = filter (\<lambda>r. num0 (r ''Trades'') > 0) (rows df)"
    by (simp add: row_filter_present)
next
  show "columns (row_filter df) = columns df" by simp
next
  assume "''Trades'' \<notin> set (columns df)"
  then show "row_filter df = df" by (rule row_filter_absent)
next
  show "generate_report pd df ps = generate_report pd (row_filter df) ps"
    by (simp add: generate_report_eq analysed_row_filter)
next
  fix rep
  assume rep: "generate_report pd df ps = Inr rep"
  note g = generate_report_Inr [OF rep]
  from g(2) show "table rep = setitem (compute_default_score (add_z_scores pd (row_filter df)))
      ''Is_Pareto'' (map Flag (pareto_flag rep))"
    by (simp add: analysed_def)
  from g(1) show "compute_pareto (compute_default_score (add_z_scores pd (row_filter df))) =
      Inr (pareto_flag rep)"
    by (simp add: analysed_def)
  from g(4) show "build_suggestion_cards pd (table rep) ps = Inr (suggestion_cards rep)" .
  from g(3) show "total_runs rep = length (rows (row_filter df))" .
  from same_outside_length [OF g(5)]
  show "length (rows (table rep)) = length (rows (row_filter df))" .
  assume t: "''Trades'' \<in> set (columns df)"
  then have "\<forall>r \<in> set (rows (row_filter df)). 0 < num0 (r ''Trades'')"
    by (simp add: row_filter_present)
  from same_outside_forall [OF g(5) trades_not_derived, of "\<lambda>c. 0 < num0 c", OF this]
  show "\<forall>r \<in> set (rows (table rep)). num0 (r ''Trades'') > 0" .
qed

theorem row_filter_invariant_witness:
  "''Trades'' \<in> set (columns traded_and_idle) \<and>
   length (rows traded_and_idle) = 2 \<and>
   length (rows (row_filter traded_and_idle)) = 1 \<and>
   (\<exists>rep. generate_report ideal_pandas traded_and_idle [] = Inr rep \<and> total_runs rep = 1 \<and>
      (\<forall>r \<in> set (rows (table rep)). num0 (r ''Trades'') > 0)) \<and>
   ''Trades'' \<notin> set (columns untraded_table) \<and>
   row_filter untraded_table = untraded_table"
proof -
  have t: "''Trades'' \<in> set (columns traded_and_idle)"
    by (simp add: traded_and_idle_def)
  have n: "''Trades'' \<notin> set (columns untraded_table)"
    by (simp add: untraded_table_def)
  have l: "length (rows traded_and_idle) = 2"
    by (simp add: traded_and_idle_def)
  note inv = row_filter_invariant [where df = traded_and_idle and ps = "[]" and pd = ideal_pandas]
  from inv t have "rows (row_filter traded_and_idle) =
      filter (\<lambda>r. num0 (r ''Trades'') > 0) (rows traded_and_idle)" by blast
  then have f: "length (rows (row_filter traded_and_idle)) = 1"
    by (simp add: traded_and_idle_def mk_row_def num0_def)
  have "\<exists>rep. generate_report ideal_pandas traded_and_idle [] = Inr rep"
    by (rule generate_report_total) (simp_all add: traded_and_idle_def ideal_sorts_descending)
  then obtain rep where rep: "generate_report ideal_pandas traded_and_idle [] = Inr rep" by blast
  with inv t f have "total_runs rep = 1" "\<forall>r \<in> set (rows (table rep)). num0 (r ''Trades'') > 0"
    by auto
  moreover from row_filter_invariant [where df = untraded_table and ps = "[]" and pd = ideal_pandas] n
  have "row_filter untraded_table = untraded_table" by blast
  ultimately show ?thesis using t n l f rep by blast
qed

section \<open>The tables of the caller\<close>

lemma st_generate_report_frame:
  "b < next_free h \<Longrightarrow> objs (fst (st_generate_report pd h a ps)) b = objs h b"
  by (simp add: st_generate_report_def df_copy_def alloc_def st_add_z_scores_eq
      st_compute_default_score_eq Let_def split: sum.splits)

lemma st_generate_report_result:
  assumes "snd (st_generate_report pd h a ps) = Inr rep"
  shows "\<exists>d \<ge> next_free h. objs (fst (st_generate_report pd h a ps)) d = table rep"
proof (cases "''Trades'' \<in> set (columns (objs h a))")
  case True
  let ?t = "compute_default_score (add_z_scores pd (row_filter (objs h a)))"
  have "\<exists>flags. summarise pd (setitem ?t ''Is_Pareto'' (map Flag flags)) flags ps = Inr rep \<and>
      objs (fst (st_generate_report pd h a ps)) (Suc (Suc (Suc (next_free h)))) =
        setitem ?t ''Is_Pareto'' (map Flag flags)"
    using assms True
    by (auto simp add: st_generate_report_def df_copy_def alloc_def st_add_z_scores_eq
        st_compute_default_score_eq Let_def split: sum.splits)
  then obtain flags where
    s: "summarise pd (setitem ?t ''Is_Pareto'' (map Flag flags)) flags ps = Inr rep" and
    o: "objs (fst (st_generate_report pd h a ps)) (Suc (Suc (Suc (next_free h)))) =
        setitem ?t ''Is_Pareto'' (map Flag flags)"
    by blast
  from o summarise_Inr(1) [OF s] show ?thesis
    by (intro exI [of _ "Suc (Suc (Suc (next_free h)))"]) simp
next
  case False
  let ?t = "compute_default_score (add_z_scores pd (objs h a))"
  have "\<exists>flags. summarise pd (setitem ?t ''Is_Pareto'' (map Flag flags)) flags ps = Inr rep \<and>
      objs (fst (st_generate_report pd h a ps)) (Suc (Suc (next_free h))) =
        setitem ?t ''Is_Pareto'' (map Flag flags)"
    using assms False
    by (auto simp add: st_generate_report_def df_copy_def alloc_def st_add_z_scores_eq
        st_compute_default_score_eq Let_def split: sum.splits)
  then obtain flags where
    s: "summarise pd (setitem ?t ''Is_Pareto'' (map Flag flags)) flags ps = Inr rep" and
    o: "objs (fst (st_generate_report pd h a ps)) (Suc (Suc (next_free h))) =
        setitem ?t ''Is_Pareto'' (map Flag flags)"
    by blast
  from o summarise_Inr(1) [OF s] show ?thesis
    by (intro exI [of _ "Suc (Suc (next_free h))"]) simp
qed

lemma generate_report_columns:
  assumes "generate_report pd df ps = Inr rep"
  shows "{''Score_Weighted'', ''Is_Pareto''} \<subseteq> set (columns (table rep))"
  using generate_report_Inr(2) [OF assms] analysed_columns(2) [where df = df and pd = pd]
  by (simp add: columns_setitem)

text \<open>
  C10. \<^verbatim>\<open>generate_report\<close>, \<^verbatim>\<open>add_z_scores\<close> and \<^verbatim>\<open>compute_default_score\<close> leave every
  table that exists when they are called as it is, the argument among them; the
  result of the two helpers is a new object, and the table of the report, which
  carries the derived columns, is a new object too.
\<close>

theorem pipeline_leaves_arguments_unchanged:
  "(\<forall>b < next_free h. objs (fst (st_generate_report pd h a ps)) b = objs h b) \<and>
   (\<forall>rep. snd (st_generate_report pd h a ps) = Inr rep \<longrightarrow>
      (\<exists>d \<ge> next_free h. objs (fst (st_generate_report pd h a ps)) d = table rep)) \<and>
   (\<forall>b < next_free h. objs (fst (st_add_z_scores pd h a)) b = objs h b) \<and>
   snd (st_add_z_scores pd h a) \<ge> next_free h \<and>
   objs (fst (st_add_z_scores pd h a)) (snd (st_add_z_scores pd h a)) = add_z_scores pd (objs h a) \<and>
   (\<forall>b < next_free h. objs (fst (st_compute_default_score h a)) b = objs h b) \<and>
   snd (st_compute_default_score h a) \<ge> next_free h \<and>
   objs (fst (st_compute_default_score h a)) (snd (st_compute_default_score h a)) =
     compute_default_score (objs h a)"
proof (intro conjI allI impI)
  fix b
  assume "b < next_free h"
  then show "objs (fst (st_generate_report pd h a ps)) b = objs h b"
    by (rule st_generate_report_frame)
next
  fix rep
  assume "snd (st_generate_report pd h a ps) = Inr rep"
  then show "\<exists>d \<ge> next_free h. objs (fst (st_generate_report pd h a ps)) d = table rep"
    by (rule st_generate_report_result)
qed (simp_all add: st_add_z_scores_eq st_compute_default_score_eq)

theorem pipeline_leaves_arguments_unchanged_witness:
  "0 < next_free caller_store \<and>
   objs (fst (st_generate_report ideal_pandas caller_store 0 [])) 0 = scenario \<and>
   objs (fst (st_add_z_scores ideal_pandas caller_store 0)) 0 = scenario \<and>
   objs (fst (st_compute_default_score caller_store 0)) 0 = scenario \<and>
   (\<exists>rep d. snd (st_generate_report ideal_pandas caller_store 0 []) = Inr rep \<and> d \<ge> 1 \<and>
      objs (fst (st_generate_report ideal_pandas caller_store 0 [])) d = table rep \<and>
      ''Is_Pareto'' \<in> set (columns (table rep)) \<and>
      ''Is_Pareto'' \<notin> set (columns scenario))"
proof -
  have n: "next_free caller_store = 1" and o: "objs caller_store 0 = scenario"
    by (simp_all add: caller_store_def)
  note inv = pipeline_leaves_arguments_unchanged [where h = caller_store and a = 0 and ps = "[]" and pd = ideal_pandas]
  have g: "snd (st_generate_report ideal_pandas caller_store 0 []) = generate_report ideal_pandas scenario []"
    by (simp add: generate_report_def caller_store_def)
  have "\<exists>rep. generate_report ideal_pandas scenario [] = Inr rep"
    by (rule generate_report_total) (simp_all add: scenario_def ideal_sorts_descending)
  then obtain rep where rep: "generate_report ideal_pandas scenario [] = Inr rep" by blast
  with g inv n obtain d where d: "d \<ge> 1"
    "objs (fst (st_generate_report ideal_pandas caller_store 0 [])) d = table rep"
    by auto
  from generate_report_columns [OF rep] have c: "''Is_Pareto'' \<in> set (columns (table rep))"
    by simp
  have nc: "''Is_Pareto'' \<notin> set (columns scenario)" by (simp add: scenario_def)
  from inv n o have "objs (fst (st_generate_report ideal_pandas caller_store 0 [])) 0 = scenario"
    "objs (fst (st_add_z_scores ideal_pandas caller_store 0)) 0 = scenario"
    "objs (fst (st_compute_default_score caller_store 0)) 0 = scenario"
    by auto
  with n g rep d c nc show ?thesis by auto
qed

end
